theory Spec2Isabelle
  imports Complex_Main "HOL-Library.Word" "HOL-Library.Sublist" "HOL-Library.Multiset"
begin

section \<open>Strings and the chunker\<close>

text \<open>
  A JavaScript string is a sequence of UTF-16 code units; \<open>length\<close> counts code units
  and a regular expression without the \<open>u\<close> flag works on code units. Document text is
  modelled that way. Messages, paths and names that the code builds from ASCII literals are
  modelled as \<^typ>\<open>string\<close>.
\<close>

type_synonym jschar = "16 word"
type_synonym jsstring = "jschar list"

text \<open>
  The class \<open>\s\<close> of an ECMAScript regular expression: the white space code points and
  the line terminators.
\<close>

definition isWhiteSpace :: "jschar \<Rightarrow> bool" where
  "isWhiteSpace c \<longleftrightarrow>
     c = 0x09 \<or> c = 0x0A \<or> c = 0x0B \<or> c = 0x0C \<or> c = 0x0D \<or> c = 0x20 \<or> c = 0xA0 \<or>
     c = 0x1680 \<or> (0x2000 \<le> c \<and> c \<le> 0x200A) \<or> c = 0x2028 \<or> c = 0x2029 \<or>
     c = 0x202F \<or> c = 0x205F \<or> c = 0x3000 \<or> c = 0xFEFF"

text \<open>
  \<open>text.split(/\s+/)\<close>: the token up to the next white space is emitted, the maximal run
  of white space after it is skipped, and the scan goes on; what is left when no white space
  remains is the last token. Leading and trailing white space give an empty first and last
  token, and the empty string gives the single token \<open>""\<close>.
\<close>

function splitWs :: "jsstring \<Rightarrow> jsstring list" where
  "splitWs s =
     (if dropWhile (\<lambda>c. \<not> isWhiteSpace c) s = [] then [s]
      else takeWhile (\<lambda>c. \<not> isWhiteSpace c) s
             # splitWs (dropWhile isWhiteSpace (dropWhile (\<lambda>c. \<not> isWhiteSpace c) s)))"
  by pat_completeness auto
termination
proof (relation "measure length")
  show "wf (measure length)" by simp
next
  fix s :: jsstring
  assume ne: "dropWhile (\<lambda>c. \<not> isWhiteSpace c) s \<noteq> []"
  let ?r = "dropWhile (\<lambda>c. \<not> isWhiteSpace c) s"
  from ne have "isWhiteSpace (hd ?r)"
    using hd_dropWhile [of "\<lambda>c. \<not> isWhiteSpace c" s] by simp
  with ne have "length (dropWhile isWhiteSpace ?r) < length ?r"
    by (cases ?r) (simp_all add: length_dropWhile_le le_imp_less_Suc)
  moreover have "length ?r \<le> length s" by (rule length_dropWhile_le)
  ultimately show "(dropWhile isWhiteSpace ?r, s) \<in> measure length" by simp
qed

declare splitWs.simps [simp del]

text \<open>\<open>words.join(' ')\<close>.\<close>

fun joinSp :: "jsstring list \<Rightarrow> jsstring" where
  "joinSp [] = []"
| "joinSp [w] = w"
| "joinSp (w # ws) = w @ 0x20 # joinSp ws"

text \<open>
  The loop of \<open>chunkText\<close> over the words, on the pair of the chunks emitted so far and
  the words of the chunk being built. A JavaScript number that \<open>length\<close> is compared with
  is modelled as an integer.
\<close>

fun chunkLoop :: "int \<Rightarrow> jsstring list \<Rightarrow> jsstring list \<times> jsstring list \<Rightarrow> jsstring list \<times> jsstring list" where
  "chunkLoop maxChunkSize [] (chunks, currentChunk) = (chunks, currentChunk)"
| "chunkLoop maxChunkSize (word # words) (chunks, currentChunk) =
     (let currentChunk = currentChunk @ [word];
          currentLength = int (length (joinSp currentChunk))
      in if currentLength \<ge> maxChunkSize
         then chunkLoop maxChunkSize words (chunks @ [joinSp currentChunk], [])
         else chunkLoop maxChunkSize words (chunks, currentChunk))"

definition chunkText :: "jsstring \<Rightarrow> int \<Rightarrow> jsstring list" where
  "chunkText text maxChunkSize =
     (let words = splitWs text;
          (chunks, currentChunk) = chunkLoop maxChunkSize words ([], [])
      in if length currentChunk > 0 then chunks @ [joinSp currentChunk] else chunks)"

section \<open>Thrown values\<close>

text \<open>
  What a JavaScript \<open>throw\<close> carries: an \<open>Error\<close> that is no \<open>McpError\<close>, with its
  name and message; an \<open>McpError\<close> of the protocol SDK, with its code and the message
  given to its constructor; or a value that is no \<open>Error\<close> at all, with its string form.
  A function that may throw returns \<open>Inl\<close> of the thrown value.
\<close>

datatype ErrorCode = InvalidRequest | InvalidParams | InternalError

datatype thrown =
    JsError string string
  | McpError ErrorCode string
  | NonError string

fun codeNumber :: "ErrorCode \<Rightarrow> string" where
  "codeNumber InvalidRequest = ''-32600''"
| "codeNumber InvalidParams = ''-32602''"
| "codeNumber InternalError = ''-32603''"

text \<open>\<open>error instanceof Error\<close> and \<open>error instanceof McpError\<close>.\<close>

fun instanceofError :: "thrown \<Rightarrow> bool" where
  "instanceofError (JsError name msg) = True"
| "instanceofError (McpError code msg) = True"
| "instanceofError (NonError v) = False"

fun instanceofMcpError :: "thrown \<Rightarrow> bool" where
  "instanceofMcpError (McpError code msg) = True"
| "instanceofMcpError e = False"

text \<open>
  \<open>error.message\<close>. The constructor of \<open>McpError\<close> passes
  \<open>`MCP error ${code}: ${message}`\<close> to \<open>Error\<close>. A value that is no \<open>Error\<close> has no
  message; the code reads \<open>message\<close> only after \<open>instanceof Error\<close>.
\<close>

fun errorMessage :: "thrown \<Rightarrow> string" where
  "errorMessage (JsError name msg) = msg"
| "errorMessage (McpError code msg) = ''MCP error '' @ codeNumber code @ '': '' @ msg"
| "errorMessage (NonError v) = []"

text \<open>
  The string form of a thrown value inside a template literal. The constructor of
  \<open>McpError\<close> in the SDK version of this program sets no name, so its string form starts
  with \<open>Error\<close> like that of any other \<open>Error\<close>.
\<close>

fun toString :: "thrown \<Rightarrow> string" where
  "toString (JsError name msg) = (if msg = [] then name else if name = [] then msg else name @ '': '' @ msg)"
| "toString (McpError code msg) = ''Error: '' @ errorMessage (McpError code msg)"
| "toString (NonError v) = v"

text \<open>\<open>error instanceof Error ? error.message : error\<close> inside a template literal.\<close>

definition messageOrValue :: "thrown \<Rightarrow> string" where
  "messageOrValue error = (if instanceofError error then errorMessage error else toString error)"

text \<open>\<open>s.includes(sub)\<close> and \<open>s.startsWith(p)\<close>.\<close>

definition includesStr :: "string \<Rightarrow> string \<Rightarrow> bool" where
  "includesStr s sub \<longleftrightarrow> sublist sub s"

definition startsWith :: "string \<Rightarrow> string \<Rightarrow> bool" where
  "startsWith s p \<longleftrightarrow> prefix p s"

text \<open>
  An optional string of the environment or of a configuration object is truthy when it is
  defined and not empty.
\<close>

fun truthy :: "string option \<Rightarrow> bool" where
  "truthy None = False"
| "truthy (Some s) = (s \<noteq> [])"

section \<open>Embedding providers\<close>

text \<open>
  The three provider classes with what their constructors store: the model name, and for the
  hosted providers the API key (and the optional base URL), which the SDK client objects are
  built from. Building such a client object sends nothing.
\<close>

datatype EmbeddingProvider =
    OllamaProvider string
  | OpenAIProvider string string "string option"
  | GoogleGenAIProvider string string

text \<open>A parameter default applies when the argument is \<open>undefined\<close>.\<close>

definition orDefault :: "string option \<Rightarrow> string \<Rightarrow> string" where
  "orDefault arg dflt = (case arg of None \<Rightarrow> dflt | Some v \<Rightarrow> v)"

definition newOllamaProvider :: "string option \<Rightarrow> EmbeddingProvider" where
  "newOllamaProvider model = OllamaProvider (orDefault model ''nomic-embed-text'')"

definition newOpenAIProvider :: "string \<Rightarrow> string option \<Rightarrow> string option \<Rightarrow> EmbeddingProvider" where
  "newOpenAIProvider apiKey model baseURL =
     OpenAIProvider apiKey (orDefault model ''text-embedding-3-small'') baseURL"

definition newGoogleGenAIProvider :: "string \<Rightarrow> string option \<Rightarrow> EmbeddingProvider" where
  "newGoogleGenAIProvider apiKey model = GoogleGenAIProvider apiKey (orDefault model ''embedding-001'')"

fun getVectorSize :: "EmbeddingProvider \<Rightarrow> nat" where
  "getVectorSize (OllamaProvider model) =
     (if includesStr model ''nomic-embed-text'' then 768 else 768)"
| "getVectorSize (OpenAIProvider apiKey model baseURL) =
     (if includesStr model ''text-embedding-3-small'' \<or> includesStr model ''ada-002'' then 1536
      else if includesStr model ''text-embedding-3-large'' then 3072
      else 1536)"
| "getVectorSize (GoogleGenAIProvider apiKey model) =
     (if includesStr model ''embedding-001'' then 768 else 768)"

text \<open>\<open>EmbeddingService\<close> wraps one provider and forwards to it.\<close>

datatype EmbeddingService = EmbeddingService (provider: EmbeddingProvider)

definition serviceVectorSize :: "EmbeddingService \<Rightarrow> nat" where
  "serviceVectorSize service = getVectorSize (provider service)"

text \<open>
  The configuration object of \<open>createFromConfig\<close>. Its \<open>provider\<close> field is typed as one
  of three literals, but it comes from the environment through a cast, so at run time it is
  any string, and the \<open>default\<close> branch of the \<open>switch\<close> can be reached.
\<close>

record EmbeddingConfig =
  cfgProvider :: string
  cfgModel :: "string option"
  cfgOpenaiApiKey :: "string option"
  cfgOpenaiBaseUrl :: "string option"
  cfgGeminiApiKey :: "string option"

definition createFromConfig :: "EmbeddingConfig \<Rightarrow> thrown + EmbeddingService" where
  "createFromConfig config =
     (if cfgProvider config = ''ollama'' then
        Inr (EmbeddingService (newOllamaProvider (cfgModel config)))
      else if cfgProvider config = ''openai'' then
        (case cfgOpenaiApiKey config of
           Some apiKey \<Rightarrow>
             if apiKey \<noteq> [] then
               Inr (EmbeddingService (newOpenAIProvider apiKey (cfgModel config) (cfgOpenaiBaseUrl config)))
             else Inl (McpError InvalidParams ''OpenAI API key (OPENAI_API_KEY) is required for openai provider'')
         | None \<Rightarrow> Inl (McpError InvalidParams ''OpenAI API key (OPENAI_API_KEY) is required for openai provider''))
      else if cfgProvider config = ''google'' then
        (case cfgGeminiApiKey config of
           Some apiKey \<Rightarrow>
             if apiKey \<noteq> [] then
               Inr (EmbeddingService (newGoogleGenAIProvider apiKey (cfgModel config)))
             else Inl (McpError InvalidParams ''Google Gemini API key (GEMINI_API_KEY) is required for google provider'')
         | None \<Rightarrow> Inl (McpError InvalidParams ''Google Gemini API key (GEMINI_API_KEY) is required for google provider''))
      else Inl (McpError InvalidParams (''Unknown embedding provider specified: '' @ cfgProvider config)))"

section \<open>The API client\<close>

text \<open>
  The variables of \<open>process.env\<close> that the module reads once when it is loaded; each is a
  string or undefined.
\<close>

record Environment =
  envEMBEDDING_PROVIDER :: "string option"
  envEMBEDDING_MODEL :: "string option"
  envOPENAI_API_KEY :: "string option"
  envOPENAI_BASE_URL :: "string option"
  envGEMINI_API_KEY :: "string option"
  envQDRANT_URL :: "string option"
  envQDRANT_API_KEY :: "string option"

text \<open>\<open>a || b\<close> on an optional string.\<close>

definition orElse :: "string option \<Rightarrow> string \<Rightarrow> string" where
  "orElse a b = (case a of Some s \<Rightarrow> if s \<noteq> [] then s else b | None \<Rightarrow> b)"

definition EMBEDDING_PROVIDER :: "Environment \<Rightarrow> string" where
  "EMBEDDING_PROVIDER env = orElse (envEMBEDDING_PROVIDER env) ''ollama''"

definition QDRANT_URL :: "Environment \<Rightarrow> string" where
  "QDRANT_URL env = orElse (envQDRANT_URL env) ''http://127.0.0.1:6333''"

text \<open>
  The constructor of the Qdrant client of the client library. Given a \<open>url\<close> it throws
  unless the URL starts with \<open>http://\<close> or \<open>https://\<close>, and then parses it with
  \<open>new URL(url)\<close>, which throws for a string that is no URL. What \<open>new URL\<close> throws, if
  anything, is the parameter \<open>newURL\<close>. The constructor sends nothing to the store. The
  result \<open>None\<close> means that the client object was built.
\<close>

definition newQdrantClient :: "(string \<Rightarrow> thrown option) \<Rightarrow> string \<Rightarrow> thrown option" where
  "newQdrantClient newURL clientUrl =
     (if \<not> (startsWith clientUrl ''http://'' \<or> startsWith clientUrl ''https://'') then
        Some (JsError ''QdrantClientConfigError''
          ''The `url` param expected to contain a valid URL starting with a protocol (http:// or https://).'')
      else newURL clientUrl)"

text \<open>
  The client object: the configuration its Qdrant client was built from and its embedding
  service. The Qdrant client object is a handle; the store it talks to is the state
  \<open>Qdrant\<close> below. The constructor builds the Qdrant client first, outside its \<open>try\<close>
  block, and the embedding service after it, inside.
\<close>

record ApiClient =
  qdrantUrl :: string
  qdrantApiKey :: "string option"
  embeddingService :: EmbeddingService

definition newApiClient :: "(string \<Rightarrow> thrown option) \<Rightarrow> Environment \<Rightarrow> thrown + ApiClient" where
  "newApiClient newURL env =
     (case newQdrantClient newURL (QDRANT_URL env) of
        Some error \<Rightarrow> Inl error
      | None \<Rightarrow>
          (case createFromConfig
                  \<lparr> cfgProvider = EMBEDDING_PROVIDER env,
                    cfgModel = envEMBEDDING_MODEL env,
                    cfgOpenaiApiKey = envOPENAI_API_KEY env,
                    cfgOpenaiBaseUrl = envOPENAI_BASE_URL env,
                    cfgGeminiApiKey = envGEMINI_API_KEY env \<rparr> of
             Inr service \<Rightarrow>
               Inr \<lparr> qdrantUrl = QDRANT_URL env, qdrantApiKey = envQDRANT_API_KEY env,
                     embeddingService = service \<rparr>
           | Inl error \<Rightarrow>
               Inl (JsError ''Error'' (''Failed to initialize EmbeddingService: '' @ messageOrValue error))))"

section \<open>The vector store\<close>

text \<open>
  A chunk of a document, and a point of the store: an identifier, a vector and the chunk as
  payload, tagged with the literal \<open>_type\<close>.
\<close>

record DocumentChunk =
  chunk_text :: jsstring
  url :: string
  title :: string
  timestamp :: string

record Point =
  pointId :: string
  vector :: "real list"
  payload :: DocumentChunk
  payloadType :: string

text \<open>
  A collection of the store: the vector size that \<open>config.params.vectors.size\<close> reads
  (undefined for a collection configured otherwise, for instance with named vectors), the
  distance and the points.
\<close>

record Collection =
  vectorsSize :: "nat option"
  distance :: string
  points :: "Point list"

text \<open>The requests that the client sends to the store.\<close>

datatype Request =
    GetCollections
  | GetCollection string
  | CreateCollection string nat string bool
  | DeleteCollection string
  | Upsert string "Point list"

text \<open>
  The store as the client sees it: its collections by name, the requests issued so far, and
  for the requests to come whether each is answered or fails with a thrown value (a network
  or authorization failure, a race with another client); a request past the end of that plan
  is answered.
\<close>

record Qdrant =
  collections :: "(string \<times> Collection) list"
  issued :: "Request list"
  faults :: "thrown option list"

text \<open>Every request is recorded and takes the next entry of the plan.\<close>

definition send :: "Request \<Rightarrow> Qdrant \<Rightarrow> thrown option \<times> Qdrant" where
  "send request q =
     (case faults q of
        [] \<Rightarrow> (None, q\<lparr>issued := issued q @ [request]\<rparr>)
      | fault # rest \<Rightarrow> (fault, q\<lparr>issued := issued q @ [request], faults := rest\<rparr>))"

text \<open>
  The answers of the store. Listing gives the names. Reading a collection gives its vector
  size, and fails for a name that is absent. Creating adds an empty collection, and fails for
  a name that is present. Deleting removes the name. An upsert needs the collection and
  vectors of its size; a point whose identifier is stored already replaces the stored point,
  any other point is added.
\<close>

definition getCollections :: "Qdrant \<Rightarrow> (thrown + string list) \<times> Qdrant" where
  "getCollections q =
     (case send GetCollections q of
        (Some error, q') \<Rightarrow> (Inl error, q')
      | (None, q') \<Rightarrow> (Inr (map fst (collections q')), q'))"

definition getCollection :: "string \<Rightarrow> Qdrant \<Rightarrow> (thrown + nat option) \<times> Qdrant" where
  "getCollection name q =
     (case send (GetCollection name) q of
        (Some error, q') \<Rightarrow> (Inl error, q')
      | (None, q') \<Rightarrow>
          (case map_of (collections q') name of
             None \<Rightarrow> (Inl (JsError ''Error'' (''Not found: Collection `'' @ name @ ''` doesn't exist!'')), q')
           | Some c \<Rightarrow> (Inr (vectorsSize c), q')))"

definition createCollection :: "string \<Rightarrow> nat \<Rightarrow> string \<Rightarrow> bool \<Rightarrow> Qdrant \<Rightarrow> (thrown + unit) \<times> Qdrant" where
  "createCollection name vsize metric cloud q =
     (case send (CreateCollection name vsize metric cloud) q of
        (Some error, q') \<Rightarrow> (Inl error, q')
      | (None, q') \<Rightarrow>
          (case map_of (collections q') name of
             Some c \<Rightarrow> (Inl (JsError ''Error'' (''Wrong input: Collection `'' @ name @ ''` already exists!'')), q')
           | None \<Rightarrow>
               (Inr (), q'\<lparr>collections := collections q' @
                   [(name, \<lparr>vectorsSize = Some vsize, distance = metric, points = []\<rparr>)]\<rparr>)))"

definition deleteCollection :: "string \<Rightarrow> Qdrant \<Rightarrow> (thrown + unit) \<times> Qdrant" where
  "deleteCollection name q =
     (case send (DeleteCollection name) q of
        (Some error, q') \<Rightarrow> (Inl error, q')
      | (None, q') \<Rightarrow>
          (Inr (), q'\<lparr>collections := filter (\<lambda>(n, c). n \<noteq> name) (collections q')\<rparr>))"

fun upsertPoint :: "Point list \<Rightarrow> Point \<Rightarrow> Point list" where
  "upsertPoint [] p = [p]"
| "upsertPoint (old # stored) p =
     (if pointId old = pointId p then p # stored else old # upsertPoint stored p)"

definition upsertPoints :: "Point list \<Rightarrow> Point list \<Rightarrow> Point list" where
  "upsertPoints stored new = foldl upsertPoint stored new"

definition upsert :: "string \<Rightarrow> Point list \<Rightarrow> Qdrant \<Rightarrow> (thrown + unit) \<times> Qdrant" where
  "upsert name new q =
     (case send (Upsert name new) q of
        (Some error, q') \<Rightarrow> (Inl error, q')
      | (None, q') \<Rightarrow>
          (case map_of (collections q') name of
             None \<Rightarrow> (Inl (JsError ''Error'' (''Not found: Collection `'' @ name @ ''` doesn't exist!'')), q')
           | Some c \<Rightarrow>
               if \<forall>p \<in> set new. vectorsSize c = Some (length (vector p)) then
                 (Inr (), q'\<lparr>collections :=
                     map (\<lambda>(n, c). if n = name then (n, c\<lparr>points := upsertPoints (points c) new\<rparr>) else (n, c))
                       (collections q')\<rparr>)
               else (Inl (JsError ''Error'' ''Wrong input: Vector dimension error''), q')))"

section \<open>The collection lifecycle\<close>

text \<open>
  \<open>handleQdrantError\<close> either returns (\<open>Inr ()\<close>: the error is swallowed) or throws an
  \<open>McpError\<close>. \<open>QDRANT_URL\<close> is the client's endpoint.
\<close>

definition handleQdrantError :: "ApiClient \<Rightarrow> thrown \<Rightarrow> string \<Rightarrow> thrown + unit" where
  "handleQdrantError this error context =
     (if instanceofError error then
        if includesStr (errorMessage error) ''Not found'' \<and> includesStr context ''verify'' then Inr ()
        else if includesStr (errorMessage error) ''already exists'' \<and> context = ''create'' then Inr ()
        else if includesStr (errorMessage error) ''timed out'' \<or> includesStr (errorMessage error) ''ECONNREFUSED'' then
          Inl (McpError InternalError
            (''Connection to Qdrant ('' @ qdrantUrl this @ '') failed during collection '' @ context
              @ ''. Please check Qdrant status and URL.''))
        else if includesStr (errorMessage error) ''Unauthorized'' \<or> includesStr (errorMessage error) ''Forbidden'' then
          Inl (McpError InvalidRequest
            (''Authentication failed for Qdrant during collection '' @ context
              @ ''. Please check QDRANT_API_KEY if using Qdrant Cloud.''))
        else
          Inl (McpError InternalError
            (''Qdrant error during collection '' @ context @ '': '' @ errorMessage error))
      else
        Inl (McpError InternalError
          (''Unknown Qdrant error during collection '' @ context @ '': '' @ toString error)))"

text \<open>
  \<open>try { body } catch (error) { this.handleQdrantError(error, context) }\<close> around a body
  that works on the store.
\<close>

definition catchQdrantError ::
  "ApiClient \<Rightarrow> string \<Rightarrow> (Qdrant \<Rightarrow> (thrown + unit) \<times> Qdrant) \<Rightarrow> Qdrant \<Rightarrow> (thrown + unit) \<times> Qdrant" where
  "catchQdrantError this context body q =
     (case body q of
        (Inr u, q') \<Rightarrow> (Inr u, q')
      | (Inl error, q') \<Rightarrow> (handleQdrantError this error context, q'))"

definition createQdrantCollection :: "ApiClient \<Rightarrow> string \<Rightarrow> nat \<Rightarrow> Qdrant \<Rightarrow> (thrown + unit) \<times> Qdrant" where
  "createQdrantCollection this name vectorSize =
     catchQdrantError this ''create''
       (createCollection name vectorSize ''Cosine'' (truthy (qdrantApiKey this)))"

definition recreateQdrantCollection :: "ApiClient \<Rightarrow> string \<Rightarrow> nat \<Rightarrow> Qdrant \<Rightarrow> (thrown + unit) \<times> Qdrant" where
  "recreateQdrantCollection this name vectorSize =
     catchQdrantError this ''recreate''
       (\<lambda>q. case deleteCollection name q of
              (Inl error, q') \<Rightarrow> (Inl error, q')
            | (Inr u, q') \<Rightarrow> createQdrantCollection this name vectorSize q')"

definition initCollection :: "ApiClient \<Rightarrow> string \<Rightarrow> Qdrant \<Rightarrow> (thrown + unit) \<times> Qdrant" where
  "initCollection this COLLECTION_NAME =
     (let requiredVectorSize = serviceVectorSize (embeddingService this) in
      catchQdrantError this ''initialize/verify''
        (\<lambda>q. case getCollections q of
               (Inl error, q1) \<Rightarrow> (Inl error, q1)
             | (Inr names, q1) \<Rightarrow>
                 if COLLECTION_NAME \<notin> set names then
                   createQdrantCollection this COLLECTION_NAME requiredVectorSize q1
                 else
                   (case getCollection COLLECTION_NAME q1 of
                      (Inl error, q2) \<Rightarrow> (Inl error, q2)
                    | (Inr currentVectorSize, q2) \<Rightarrow>
                        if currentVectorSize = None \<or> currentVectorSize = Some 0 then
                          recreateQdrantCollection this COLLECTION_NAME requiredVectorSize q2
                        else if currentVectorSize \<noteq> Some requiredVectorSize then
                          recreateQdrantCollection this COLLECTION_NAME requiredVectorSize q2
                        else (Inr (), q2))))"

section \<open>Paths\<close>

text \<open>
  The POSIX functions of Node's \<open>path\<close> module that the handler calls, on the segments of
  a path. \<open>splitSlash\<close> is \<open>s.split('/')\<close>. \<open>normalizeSegs\<close> drops empty segments and
  \<open>.\<close>, and lets \<open>..\<close> remove the segment before it; above the root \<open>..\<close> is dropped.
\<close>

fun splitSlash :: "string \<Rightarrow> string list" where
  "splitSlash [] = [[]]"
| "splitSlash (c # cs) =
     (if c = CHR ''/'' then [] # splitSlash cs
      else (case splitSlash cs of seg # segs \<Rightarrow> (c # seg) # segs | [] \<Rightarrow> [[c]]))"

fun joinSlash :: "string list \<Rightarrow> string" where
  "joinSlash [] = []"
| "joinSlash [seg] = seg"
| "joinSlash (seg # segs) = seg @ CHR ''/'' # joinSlash segs"

fun normalizeSegs :: "string list \<Rightarrow> string list \<Rightarrow> string list" where
  "normalizeSegs res [] = res"
| "normalizeSegs res (seg # segs) =
     (if seg = [] \<or> seg = ''.'' then normalizeSegs res segs
      else if seg = ''..'' then normalizeSegs (butlast res) segs
      else normalizeSegs (res @ [seg]) segs)"

definition isAbsolute :: "string \<Rightarrow> bool" where
  "isAbsolute p \<longleftrightarrow> startsWith p ''/''"

text \<open>
  \<open>path.resolve(p)\<close> in the working directory \<open>dir\<close> (an absolute path): the segments
  of the absolute, normalized path. \<open>pathString\<close> is the path as a string.
\<close>

definition resolve :: "string \<Rightarrow> string \<Rightarrow> string list" where
  "resolve dir p =
     (if isAbsolute p then normalizeSegs [] (splitSlash p)
      else normalizeSegs [] (splitSlash dir @ splitSlash p))"

definition pathString :: "string list \<Rightarrow> string" where
  "pathString segs = CHR ''/'' # joinSlash segs"

definition basename :: "string list \<Rightarrow> string" where
  "basename segs = (if segs = [] then [] else last segs)"

text \<open>
  \<open>path.relative(from, to)\<close> on two resolved paths: the common leading segments are
  dropped, every segment left of \<open>from\<close> becomes \<open>..\<close>, and what is left of \<open>to\<close> follows.
\<close>

fun stripCommon :: "string list \<Rightarrow> string list \<Rightarrow> string list \<times> string list" where
  "stripCommon (a # as) (b # bs) = (if a = b then stripCommon as bs else (a # as, b # bs))"
| "stripCommon as bs = (as, bs)"

definition relative :: "string list \<Rightarrow> string list \<Rightarrow> string" where
  "relative from to =
     (case stripCommon from to of
        (up, down) \<Rightarrow> joinSlash (replicate (length up) ''..'' @ down))"

section \<open>The world of the handler\<close>

text \<open>
  What the handler works on besides the store: the working directory, the answers of the
  file system, of the fetching and rendering of a URL, and of the embedding backend, the
  bytes that the random source delivers and how many were drawn, the readings of the clock
  and how many were taken, the time at which the embedding request for the chunk with a given
  index completes, and the record of the file accesses, fetches and embedding requests made
  so far (the requests to the store are recorded in the store).
\<close>

datatype FsError = FsError string string

datatype Effect =
    FsAccess string
  | FsReadFile string
  | FetchSource string
  | Embed jsstring

record World =
  qdrant :: Qdrant
  cwd :: string
  accessResult :: "string \<Rightarrow> FsError option"
  readFileResult :: "string \<Rightarrow> FsError + jsstring"
  fetchResult :: "string \<Rightarrow> thrown + string \<times> jsstring"
  backendResult :: "jsstring \<Rightarrow> thrown + real list"
  randomStream :: "nat \<Rightarrow> 8 word"
  drawn :: nat
  clock :: "nat \<Rightarrow> string"
  ticks :: nat
  completionTime :: "nat \<Rightarrow> nat"
  effects :: "Effect list"

section \<open>Embedding a text\<close>

fun providerLabel :: "EmbeddingProvider \<Rightarrow> string" where
  "providerLabel (OllamaProvider model) = ''Ollama''"
| "providerLabel (OpenAIProvider apiKey model baseURL) = ''OpenAI''"
| "providerLabel (GoogleGenAIProvider apiKey model) = ''Google Gemini''"

text \<open>
  \<open>generateEmbeddings\<close> of a provider: the request to the backend, whose failure of any
  kind is thrown again as an \<open>McpError\<close>. \<open>getEmbeddings\<close> of the client wraps what the
  service throws once more.
\<close>

definition generateEmbeddings :: "EmbeddingProvider \<Rightarrow> jsstring \<Rightarrow> World \<Rightarrow> (thrown + real list) \<times> World" where
  "generateEmbeddings p input w =
     (case backendResult w input of
        Inr embedding \<Rightarrow> Inr embedding
      | Inl error \<Rightarrow>
          Inl (McpError InternalError
            (''Failed to generate embeddings with '' @ providerLabel p @ '': '' @ toString error)),
      w\<lparr>effects := effects w @ [Embed input]\<rparr>)"

definition getEmbeddings :: "ApiClient \<Rightarrow> jsstring \<Rightarrow> World \<Rightarrow> (thrown + real list) \<times> World" where
  "getEmbeddings this input w =
     (case generateEmbeddings (provider (embeddingService this)) input w of
        (Inr embedding, w') \<Rightarrow> (Inr embedding, w')
      | (Inl error, w') \<Rightarrow>
          (Inl (McpError InternalError (''Failed to generate embeddings: '' @ messageOrValue error)), w'))"

section \<open>The handler of \<open>add_documentation\<close>\<close>

definition COLLECTION_NAME :: string where
  "COLLECTION_NAME = ''documentation''"

definition batchSize :: nat where
  "batchSize = 100"

text \<open>\<open>crypto.randomBytes(n)\<close> and the lower-case hexadecimal form of a byte string.\<close>

definition randomBytes :: "nat \<Rightarrow> World \<Rightarrow> 8 word list \<times> World" where
  "randomBytes n w = (map (randomStream w) [drawn w ..< drawn w + n], w\<lparr>drawn := drawn w + n\<rparr>)"

definition hexDigit :: "nat \<Rightarrow> char" where
  "hexDigit d = ''0123456789abcdef'' ! d"

definition hexByte :: "8 word \<Rightarrow> string" where
  "hexByte b = [hexDigit (unat b div 16), hexDigit (unat b mod 16)]"

definition toHex :: "8 word list \<Rightarrow> string" where
  "toHex bytes = concat (map hexByte bytes)"

definition generatePointId :: "World \<Rightarrow> string \<times> World" where
  "generatePointId w = (case randomBytes 16 w of (bytes, w') \<Rightarrow> (toHex bytes, w'))"

text \<open>\<open>new Date().toISOString()\<close>.\<close>

definition readClock :: "World \<Rightarrow> string \<times> World" where
  "readClock w = (clock w (ticks w), w\<lparr>ticks := ticks w + 1\<rparr>)"

text \<open>A number inside a template literal.\<close>

fun showNat :: "nat \<Rightarrow> string" where
  "showNat n = (if n < 10 then [''0123456789'' ! n] else showNat (n div 10) @ [''0123456789'' ! (n mod 10)])"

declare showNat.simps [simp del]

text \<open>
  The branch of \<open>fetchAndProcessUrl\<close> for a local path: the guard on the resolved path,
  then the access check and the read. It gives the title and the content.
\<close>

definition fileErrorToMcp :: "string \<Rightarrow> FsError \<Rightarrow> thrown" where
  "fileErrorToMcp resolvedPath fileError =
     (case fileError of FsError code msg \<Rightarrow>
        if code = ''ENOENT'' then McpError InvalidParams (''Local file not found: '' @ resolvedPath)
        else if code = ''EACCES'' then
          McpError InvalidParams (''Permission denied reading local file: '' @ resolvedPath)
        else McpError InternalError (''Error reading local file '' @ resolvedPath @ '': '' @ msg))"

definition readLocalFile :: "string \<Rightarrow> World \<Rightarrow> (thrown + string \<times> jsstring) \<times> World" where
  "readLocalFile source w =
     (let resolvedPath = resolve (cwd w) source;
          workspaceRoot = resolve (cwd w) ''.'';
          relativePath = relative workspaceRoot resolvedPath
      in if startsWith relativePath ''..'' \<or> isAbsolute relativePath then
           (Inl (McpError InvalidParams ''Access denied: Path is outside the allowed workspace directory.''), w)
         else
           (let w1 = w\<lparr>effects := effects w @ [FsAccess (pathString resolvedPath)]\<rparr> in
            case accessResult w (pathString resolvedPath) of
              Some fileError \<Rightarrow> (Inl (fileErrorToMcp (pathString resolvedPath) fileError), w1)
            | None \<Rightarrow>
                (let w2 = w1\<lparr>effects := effects w1 @ [FsReadFile (pathString resolvedPath)]\<rparr> in
                 case readFileResult w (pathString resolvedPath) of
                   Inl fileError \<Rightarrow> (Inl (fileErrorToMcp (pathString resolvedPath) fileError), w2)
                 | Inr content \<Rightarrow> (Inr (basename resolvedPath, content), w2))))"

text \<open>
  The branch for a URL. Fetching the page or the text file, rendering it in the browser and
  extracting title and main content are the work of external collaborators; its outcome for
  a URL is a thrown value or the title and the content.
\<close>

definition fetchRemote :: "string \<Rightarrow> World \<Rightarrow> (thrown + string \<times> jsstring) \<times> World" where
  "fetchRemote source w = (fetchResult w source, w\<lparr>effects := effects w @ [FetchSource source]\<rparr>)"

text \<open>The chunks of the content become \<open>DocumentChunk\<close>s, each with a reading of the clock.\<close>

fun stampChunks :: "string \<Rightarrow> string \<Rightarrow> jsstring list \<Rightarrow> World \<Rightarrow> DocumentChunk list \<times> World" where
  "stampChunks source ttl [] w = ([], w)"
| "stampChunks source ttl (chunk # chunks) w =
     (case readClock w of (now, w1) \<Rightarrow>
        (case stampChunks source ttl chunks w1 of (rest, w2) \<Rightarrow>
           (\<lparr>chunk_text = chunk, url = source, title = ttl, timestamp = now\<rparr> # rest, w2)))"

definition fetchAndProcessUrl :: "string \<Rightarrow> World \<Rightarrow> (thrown + DocumentChunk list) \<times> World" where
  "fetchAndProcessUrl source w =
     (let isUrl = startsWith source ''http://'' \<or> startsWith source ''https://'' in
      case (if isUrl then fetchRemote source w else readLocalFile source w) of
        (Inr (ttl, mainContent), w') \<Rightarrow>
          (case stampChunks source ttl (chunkText mainContent 1000) w' of
             (chunks, w'') \<Rightarrow> (Inr chunks, w''))
      | (Inl error, w') \<Rightarrow>
          if instanceofMcpError error then (Inl error, w')
          else (Inl (McpError InternalError
                  (''Failed to fetch or process source '' @ source @ '': '' @ messageOrValue error)), w'))"

text \<open>
  \<open>Promise.all(batch.map(async (chunk) => ...))\<close>, for the batch that starts at index
  \<open>i\<close> of the chunks. \<open>map\<close> runs every callback up to its \<open>await\<close>, so all embedding
  requests are made, in the order of the chunks. Each callback goes on when its own request
  has completed, and only then calls \<open>generatePointId\<close>: the identifiers are drawn in the
  order in which the requests complete, which is the order of their completion times (two
  requests with the same time in the order of their chunks). The first request to complete
  with a failure makes \<open>Promise.all\<close> throw what that request threw; what the callbacks
  still waiting do after that is no part of the result. When every request has succeeded,
  the points come in the order of the chunks, each with the identifier drawn for it.
\<close>

fun startEmbeddings :: "ApiClient \<Rightarrow> DocumentChunk list \<Rightarrow> World \<Rightarrow> (thrown + real list) list \<times> World" where
  "startEmbeddings this [] w = ([], w)"
| "startEmbeddings this (chunk # batch) w =
     (case getEmbeddings this (chunk_text chunk) w of (outcome, w1) \<Rightarrow>
        (case startEmbeddings this batch w1 of (outcomes, w2) \<Rightarrow> (outcome # outcomes, w2)))"

definition completionOrder :: "World \<Rightarrow> nat \<Rightarrow> nat \<Rightarrow> nat list" where
  "completionOrder w i n = sort_key (\<lambda>k. completionTime w (i + k)) [0 ..< n]"

text \<open>
  The callbacks going on in the given order; \<open>k\<close> is the position of a chunk in its batch,
  and the result pairs each position with the identifier drawn for it.
\<close>

fun settle :: "nat list \<Rightarrow> (thrown + real list) list \<Rightarrow> World \<Rightarrow> (thrown + (nat \<times> string) list) \<times> World" where
  "settle [] outcomes w = (Inr [], w)"
| "settle (k # order) outcomes w =
     (case outcomes ! k of
        Inl error \<Rightarrow> (Inl error, w)
      | Inr embedding \<Rightarrow>
          (case generatePointId w of (pid, w1) \<Rightarrow>
             (case settle order outcomes w1 of
                (Inl error, w2) \<Rightarrow> (Inl error, w2)
              | (Inr ids, w2) \<Rightarrow> (Inr ((k, pid) # ids), w2))))"

definition embedBatch :: "ApiClient \<Rightarrow> nat \<Rightarrow> DocumentChunk list \<Rightarrow> World \<Rightarrow> (thrown + Point list) \<times> World" where
  "embedBatch this i batch w =
     (case startEmbeddings this batch w of (outcomes, w1) \<Rightarrow>
        (case settle (completionOrder w1 i (length batch)) outcomes w1 of
           (Inl error, w2) \<Rightarrow> (Inl error, w2)
         | (Inr ids, w2) \<Rightarrow>
             (Inr (map (\<lambda>k. \<lparr>pointId = (case map_of ids k of Some pid \<Rightarrow> pid | None \<Rightarrow> []),
                              vector = (case outcomes ! k of Inr embedding \<Rightarrow> embedding | Inl error \<Rightarrow> []),
                              payload = batch ! k,
                              payloadType = ''DocumentChunk''\<rparr>)
                     [0 ..< length batch]), w2)))"

text \<open>The \<open>catch\<close> clause around the upsert of a batch.\<close>

definition rethrowUpsertError :: "thrown \<Rightarrow> thrown" where
  "rethrowUpsertError error =
     (if instanceofError error then
        if includesStr (errorMessage error) ''unauthorized'' then
          McpError InvalidRequest ''Failed to authenticate with Qdrant cloud while adding documents''
        else if includesStr (errorMessage error) ''ECONNREFUSED'' \<or> includesStr (errorMessage error) ''ETIMEDOUT'' then
          McpError InternalError ''Connection to Qdrant cloud failed while adding documents''
        else error
      else error)"

text \<open>The loop over the batches, from index \<open>i\<close>.\<close>

function batchLoop :: "ApiClient \<Rightarrow> nat \<Rightarrow> DocumentChunk list \<Rightarrow> World \<Rightarrow> (thrown + unit) \<times> World" where
  "batchLoop this i chunks w =
     (if i < length chunks then
        (case embedBatch this i (take batchSize (drop i chunks)) w of
           (Inl error, w1) \<Rightarrow> (Inl error, w1)
         | (Inr pts, w1) \<Rightarrow>
             (case upsert COLLECTION_NAME pts (qdrant w1) of
                (Inl error, q) \<Rightarrow> (Inl (rethrowUpsertError error), w1\<lparr>qdrant := q\<rparr>)
              | (Inr u, q) \<Rightarrow> batchLoop this (i + batchSize) chunks (w1\<lparr>qdrant := q\<rparr>)))
      else (Inr (), w))"
  by pat_completeness auto
termination
  by (relation "measure (\<lambda>(this, i, chunks, w). length chunks - i)") (auto simp: batchSize_def)

declare batchLoop.simps [simp del]

record McpToolResponse =
  contentText :: string
  isError :: bool

text \<open>The body of the \<open>try\<close> block of \<open>handle\<close>, and \<open>handle\<close> with its \<open>catch\<close> clause.\<close>

definition handleBody :: "ApiClient \<Rightarrow> string \<Rightarrow> World \<Rightarrow> (thrown + McpToolResponse) \<times> World" where
  "handleBody this argsUrl w =
     (case fetchAndProcessUrl argsUrl w of
        (Inl error, w1) \<Rightarrow> (Inl error, w1)
      | (Inr chunks, w1) \<Rightarrow>
          (case batchLoop this 0 chunks w1 of
             (Inl error, w2) \<Rightarrow> (Inl error, w2)
           | (Inr u, w2) \<Rightarrow>
               (Inr \<lparr>contentText =
                       ''Successfully added documentation from '' @ argsUrl @ '' (''
                         @ showNat (length chunks) @ '' chunks processed in ''
                         @ showNat ((length chunks + batchSize - 1) div batchSize) @ '' batches)'',
                     isError = False\<rparr>, w2)))"

text \<open>
  The argument \<open>args\<close> of \<open>handle\<close> is typed \<open>any\<close>: it is \<open>undefined\<close>,
  \<open>null\<close>, or a value whose property \<open>url\<close> is a string (\<open>Some\<close>) or is missing or no
  string (\<open>None\<close>). Reading \<open>args.url\<close> of \<open>undefined\<close> or \<open>null\<close> throws a
  \<open>TypeError\<close>, and the check that reads it stands before the \<open>try\<close> block.
\<close>

datatype JsArgs = ArgsUndefined | ArgsNull | ArgsValue "string option"

definition handle :: "ApiClient \<Rightarrow> JsArgs \<Rightarrow> World \<Rightarrow> (thrown + McpToolResponse) \<times> World" where
  "handle this args w =
     (case args of
        ArgsUndefined \<Rightarrow>
          (Inl (JsError ''TypeError'' ''Cannot read properties of undefined (reading 'url')''), w)
      | ArgsNull \<Rightarrow>
          (Inl (JsError ''TypeError'' ''Cannot read properties of null (reading 'url')''), w)
      | ArgsValue None \<Rightarrow> (Inl (McpError InvalidParams ''URL is required''), w)
      | ArgsValue (Some source) \<Rightarrow>
          if source = [] then (Inl (McpError InvalidParams ''URL is required''), w)
          else
            (case handleBody this source w of
               (Inr response, w') \<Rightarrow> (Inr response, w')
             | (Inl error, w') \<Rightarrow>
                 if instanceofMcpError error then (Inl error, w')
                 else (Inr \<lparr>contentText = ''Failed to add documentation: '' @ toString error,
                            isError = True\<rparr>, w')))"

section \<open>The blocks of the random stream\<close>

text \<open>
  The first \<open>n\<close> blocks of sixteen bytes of a stream, from position \<open>start\<close> on: what
  \<open>n\<close> calls of \<open>crypto.randomBytes(16)\<close> in a row deliver.
\<close>

definition blocksAt :: "(nat \<Rightarrow> 8 word) \<Rightarrow> nat \<Rightarrow> nat \<Rightarrow> 8 word list list" where
  "blocksAt stream start n = map (\<lambda>k. map stream [start + 16 * k ..< start + 16 * k + 16]) [0 ..< n]"

section \<open>Example data\<close>

text \<open>A \<open>new URL\<close> that throws for no string.\<close>

definition acceptsEveryUrl :: "string \<Rightarrow> thrown option" where
  "acceptsEveryUrl u = None"

text \<open>A client for the local store with the default provider, and a stored point.\<close>

definition ollamaClient :: ApiClient where
  "ollamaClient =
     \<lparr>qdrantUrl = ''http://127.0.0.1:6333'', qdrantApiKey = None,
       embeddingService = EmbeddingService (OllamaProvider ''nomic-embed-text'')\<rparr>"

definition oldPoint :: Point where
  "oldPoint =
     \<lparr>pointId = ''00112233445566778899aabbccddeeff'', vector = [1, 0],
       payload = \<lparr>chunk_text = [97], url = ''notes.txt'', title = ''notes.txt'',
                  timestamp = ''2025-01-01T00:00:00.000Z''\<rparr>,
       payloadType = ''DocumentChunk''\<rparr>"

text \<open>
  A store whose only collection is \<open>documentation\<close>, with the given vector size and
  points, the requests sent so far and the given plan of failures.
\<close>

definition docStore :: "nat option \<Rightarrow> Point list \<Rightarrow> Request list \<Rightarrow> thrown option list \<Rightarrow> Qdrant" where
  "docStore vsize pts sent plan =
     \<lparr>collections = [(''documentation'', \<lparr>vectorsSize = vsize, distance = ''Cosine'', points = pts\<rparr>)],
       issued = sent, faults = plan\<rparr>"

text \<open>
  A world with the working directory \<open>/srv/app\<close>, where the only readable file is
  \<open>notes.txt\<close> with the content \<open>a b\<close>, no URL can be fetched, every text is embedded
  as a vector of two numbers, the random source counts its bytes up from zero, and of
  the embedding requests of a batch a later one completes before an earlier one.
\<close>

definition notesWorld :: "Qdrant \<Rightarrow> World" where
  "notesWorld q =
     \<lparr>qdrant = q, cwd = ''/srv/app'',
       accessResult = (\<lambda>p. if p = ''/srv/app/notes.txt'' then None
                            else Some (FsError ''ENOENT'' ''no such file or directory'')),
       readFileResult = (\<lambda>p. if p = ''/srv/app/notes.txt'' then Inr [97, 0x20, 98]
                              else Inl (FsError ''ENOENT'' ''no such file or directory'')),
       fetchResult = (\<lambda>u. Inl (JsError ''TypeError'' ''fetch failed'')),
       backendResult = (\<lambda>t. Inr [1, 0]),
       randomStream = (\<lambda>i. of_nat i),
       drawn = 0,
       clock = (\<lambda>k. ''2025-06-01T12:00:00.000Z''),
       ticks = 0,
       completionTime = (\<lambda>k. 1000 - k),
       effects = []\<rparr>"

section \<open>Properties of the chunker\<close>

lemma isWhiteSpace_space: "isWhiteSpace 0x20"
  by (simp add: isWhiteSpace_def)

lemma splitWs_last:
  assumes "dropWhile (\<lambda>c. \<not> isWhiteSpace c) s = []"
  shows "splitWs s = [s]"
  by (rule trans [OF splitWs.simps]) (simp only: assms, simp)

lemma splitWs_step:
  assumes "dropWhile (\<lambda>c. \<not> isWhiteSpace c) s \<noteq> []"
  shows "splitWs s = takeWhile (\<lambda>c. \<not> isWhiteSpace c) s
     # splitWs (dropWhile isWhiteSpace (dropWhile (\<lambda>c. \<not> isWhiteSpace c) s))"
  by (rule trans [OF splitWs.simps]) (simp only: assms if_False)

lemma splitWs_not_Nil: "splitWs s \<noteq> []"
proof (cases "dropWhile (\<lambda>c. \<not> isWhiteSpace c) s = []")
  case True
  from splitWs_last [OF True] show ?thesis by simp
next
  case False
  from splitWs_step [OF False] show ?thesis by simp
qed

lemma joinSp_Cons: "ws \<noteq> [] \<Longrightarrow> joinSp (w # ws) = w @ 0x20 # joinSp ws"
  by (cases ws) simp_all

lemma joinSp_append:
  "xs \<noteq> [] \<Longrightarrow> ys \<noteq> [] \<Longrightarrow> joinSp (xs @ ys) = joinSp xs @ 0x20 # joinSp ys"
proof (induction xs)
  case Nil
  then show ?case by simp
next
  case (Cons x xs)
  show ?case
  proof (cases "xs = []")
    case True
    with Cons.prems show ?thesis by (simp add: joinSp_Cons)
  next
    case False
    with Cons show ?thesis by (simp add: joinSp_Cons)
  qed
qed

lemma joinSp_groups: "[] \<notin> set gs \<Longrightarrow> joinSp (map joinSp gs) = joinSp (concat gs)"
proof (induction gs)
  case Nil
  then show ?case by simp
next
  case (Cons g gs)
  then have g: "g \<noteq> []" and rest: "[] \<notin> set gs" by auto
  show ?case
  proof (cases "gs = []")
    case True
    then show ?thesis by simp
  next
    case False
    with rest have "concat gs \<noteq> []" by (cases gs) auto
    with False g Cons.IH [OF rest] show ?thesis
      by (simp add: joinSp_Cons joinSp_append)
  qed
qed

lemma dropWhile_white_id:
  "t = [] \<or> \<not> isWhiteSpace (hd t) \<Longrightarrow> dropWhile isWhiteSpace t = t"
  by (cases t) auto

lemma joined_tokens_head:
  assumes "s = [] \<or> \<not> isWhiteSpace (hd s)"
  shows "joinSp (splitWs s) = [] \<or> \<not> isWhiteSpace (hd (joinSp (splitWs s)))"
proof (cases s)
  case Nil
  then show ?thesis by (simp add: splitWs_last)
next
  case (Cons c cs)
  with assms have c: "\<not> isWhiteSpace c" by simp
  show ?thesis
  proof (cases "dropWhile (\<lambda>c. \<not> isWhiteSpace c) s = []")
    case True
    with Cons c show ?thesis by (simp add: splitWs_last)
  next
    case False
    from Cons c have "takeWhile (\<lambda>c. \<not> isWhiteSpace c) s \<noteq> []" by simp
    then have "hd (takeWhile (\<lambda>c. \<not> isWhiteSpace c) s) = c" using Cons c by simp
    with False Cons c show ?thesis
      by (simp add: splitWs_step joinSp_Cons splitWs_not_Nil)
  qed
qed

lemma splitWs_joinSp_splitWs: "splitWs (joinSp (splitWs s)) = splitWs s"
proof (induction s rule: splitWs.induct)
  case (1 s)
  let ?nw = "\<lambda>c. \<not> isWhiteSpace c"
  show ?case
  proof (cases "dropWhile ?nw s = []")
    case True
    then show ?thesis by (simp add: splitWs_last)
  next
    case False
    define w where "w = takeWhile ?nw s"
    define t where "t = dropWhile isWhiteSpace (dropWhile ?nw s)"
    define j where "j = joinSp (splitWs t)"
    have w: "\<And>c. c \<in> set w \<Longrightarrow> \<not> isWhiteSpace c"
      unfolding w_def by (auto dest: set_takeWhileD)
    have st: "splitWs s = w # splitWs t"
      using False by (simp add: splitWs_step w_def t_def)
    have "t = [] \<or> \<not> isWhiteSpace (hd t)"
      unfolding t_def using hd_dropWhile [of isWhiteSpace "dropWhile ?nw s"] by blast
    then have "j = [] \<or> \<not> isWhiteSpace (hd j)"
      unfolding j_def by (rule joined_tokens_head)
    then have dj: "dropWhile isWhiteSpace j = j" by (rule dropWhile_white_id)
    have js: "joinSp (splitWs s) = w @ 0x20 # j"
      by (simp add: st joinSp_Cons splitWs_not_Nil j_def)
    have tk: "takeWhile ?nw (w @ 0x20 # j) = w"
      using w by (simp add: takeWhile_append2 isWhiteSpace_space)
    have dr: "dropWhile ?nw (w @ 0x20 # j) = 0x20 # j"
      using w by (simp add: dropWhile_append2 isWhiteSpace_space)
    have "splitWs (w @ 0x20 # j) = w # splitWs j"
      by (subst splitWs.simps) (simp only: tk dr, simp add: isWhiteSpace_space dj)
    also have "splitWs j = splitWs t"
      unfolding j_def t_def using "1.IH" [OF False] .
    finally have "splitWs (w @ 0x20 # j) = w # splitWs t" .
    then show ?thesis by (simp only: js) (simp only: st)
  qed
qed

lemma chunkLoop_groups:
  "chunkLoop m ws (cs, cur) = (cs', cur') \<Longrightarrow>
   \<exists>gs. [] \<notin> set gs \<and> cs' = cs @ map joinSp gs \<and> cur @ ws = concat gs @ cur'"
proof (induction ws arbitrary: cs cur)
  case Nil
  then show ?case by (intro exI [of _ "[]"]) simp
next
  case (Cons w ws)
  show ?case
  proof (cases "m \<le> int (length (joinSp (cur @ [w])))")
    case True
    with Cons.prems have "chunkLoop m ws (cs @ [joinSp (cur @ [w])], []) = (cs', cur')"
      by simp
    from Cons.IH [OF this] obtain gs where
      gs: "[] \<notin> set gs" "cs' = (cs @ [joinSp (cur @ [w])]) @ map joinSp gs" "[] @ ws = concat gs @ cur'"
      by blast
    then show ?thesis by (intro exI [of _ "(cur @ [w]) # gs"]) auto
  next
    case False
    with Cons.prems have "chunkLoop m ws (cs, cur @ [w]) = (cs', cur')"
      by simp
    from Cons.IH [OF this] show ?thesis by simp
  qed
qed

lemma chunkText_groups:
  "\<exists>gs. [] \<notin> set gs \<and> concat gs = splitWs text \<and> chunkText text m = map joinSp gs"
proof -
  obtain cs cur where loop: "chunkLoop m (splitWs text) ([], []) = (cs, cur)"
    by (cases "chunkLoop m (splitWs text) ([], [])") blast
  from chunkLoop_groups [OF loop] obtain gs where
    gs: "[] \<notin> set gs" "cs = map joinSp gs" "splitWs text = concat gs @ cur" by auto
  show ?thesis
  proof (cases "cur = []")
    case True
    with gs loop show ?thesis by (intro exI [of _ gs]) (simp add: chunkText_def)
  next
    case False
    with gs loop show ?thesis by (intro exI [of _ "gs @ [cur]"]) (simp add: chunkText_def)
  qed
qed

text \<open>
  Claim C4. For a non-empty text and a positive \<open>maxSize\<close>, the chunks are the
  space-joined groups of a partition of the word list of the text into consecutive non-empty
  groups, so that no word is split between two chunks; and splitting the chunks, joined with
  single spaces, on white space gives back the words of the text in their order. The words
  are the tokens of \<open>split(/\s+/)\<close>, whose first and last may be empty.
\<close>

theorem chunkText_keeps_words:
  assumes "text \<noteq> []" and "0 < maxSize"
  shows "(\<exists>gs. [] \<notin> set gs \<and> concat gs = splitWs text \<and> chunkText text maxSize = map joinSp gs)
       \<and> splitWs (joinSp (chunkText text maxSize)) = splitWs text"
proof -
  from chunkText_groups obtain gs where
    gs: "[] \<notin> set gs" "concat gs = splitWs text" "chunkText text maxSize = map joinSp gs" by blast
  then have "joinSp (chunkText text maxSize) = joinSp (splitWs text)"
    by (simp add: joinSp_groups)
  then have "splitWs (joinSp (chunkText text maxSize)) = splitWs text"
    by (simp add: splitWs_joinSp_splitWs)
  with gs show ?thesis by blast
qed

theorem chunkText_keeps_words_witness:
  "splitWs (joinSp (chunkText [97, 0x20, 98, 99, 0x0A, 100] 2)) = [[97], [98, 99], [100]]"
proof -
  have "[97, 0x20, 98, 99, 0x0A, 100] \<noteq> ([] :: jsstring)" by simp
  moreover have "(0 :: int) < 2" by simp
  ultimately have "splitWs (joinSp (chunkText [97, 0x20, 98, 99, 0x0A, 100] 2))
      = splitWs [97, 0x20, 98, 99, 0x0A, 100]"
    using chunkText_keeps_words by blast
  also have "splitWs [97, 0x20, 98, 99, 0x0A, 100] = [[97], [98, 99], [100]]"
    by code_simp
  finally show ?thesis .
qed

text \<open>Every text, the empty one too, gives at least one chunk.\<close>

lemma chunkText_not_Nil: "chunkText text m \<noteq> []"
proof -
  from chunkText_groups obtain gs where
    gs: "concat gs = splitWs text" "chunkText text m = map joinSp gs" by blast
  from gs(1) have "gs \<noteq> []" using splitWs_not_Nil [of "text"] by auto
  with gs(2) show ?thesis by simp
qed

lemma splitWs_Nil: "splitWs [] = [[]]"
  by (rule splitWs_last) simp

text \<open>
  Claim C5. The claim asks for no chunk at all on the empty text. \<open>"".split(/\s+/)\<close> is
  \<open>[""]\<close>, so the loop pushes one empty word, the guard \<open>currentChunk.length > 0\<close> holds
  and one chunk, the empty string, is returned, whatever \<open>maxChunkSize\<close> is.
\<close>

theorem chunkText_empty_text: "chunkText [] m = [[]]"
  by (cases "m \<le> 0") (simp_all add: chunkText_def splitWs_Nil)

lemma chunkLoop_closed_long:
  "chunkLoop m ws (cs, cur) = (cs', cur') \<Longrightarrow> \<forall>c\<in>set cs. m \<le> int (length c) \<Longrightarrow>
   \<forall>c\<in>set cs'. m \<le> int (length c)"
proof (induction ws arbitrary: cs cur)
  case Nil
  then show ?case by simp
next
  case (Cons w ws)
  show ?case
  proof (cases "m \<le> int (length (joinSp (cur @ [w])))")
    case True
    with Cons.prems(1) have "chunkLoop m ws (cs @ [joinSp (cur @ [w])], []) = (cs', cur')"
      by simp
    moreover from True Cons.prems(2)
    have "\<forall>c\<in>set (cs @ [joinSp (cur @ [w])]). m \<le> int (length c)" by simp
    ultimately show ?thesis by (rule Cons.IH)
  next
    case False
    with Cons.prems(1) have "chunkLoop m ws (cs, cur @ [w]) = (cs', cur')" by simp
    then show ?thesis using Cons.prems(2) by (rule Cons.IH)
  qed
qed

lemma splitWs_one_word: "splitWs (replicate n 97) = [replicate n 97]"
proof -
  have "dropWhile (\<lambda>c. \<not> isWhiteSpace c) (replicate n (97 :: jschar)) = []"
    by (simp add: isWhiteSpace_def)
  then show ?thesis by (rule splitWs_last)
qed

text \<open>
  Claim C10. For a positive \<open>maxSize\<close>, every chunk but the last is at least
  \<open>maxSize\<close> code units long, and \<open>maxSize\<close> is no upper bound: some text has a chunk
  longer than \<open>maxSize\<close>.
\<close>

theorem chunkText_maxSize_lower_bound:
  assumes "0 < maxSize"
  shows "(\<forall>c\<in>set (butlast (chunkText text maxSize)). maxSize \<le> int (length c))
       \<and> (\<exists>long. \<exists>c\<in>set (chunkText long maxSize). maxSize < int (length c))"
proof
  obtain cs cur where loop: "chunkLoop maxSize (splitWs text) ([], []) = (cs, cur)"
    by (cases "chunkLoop maxSize (splitWs text) ([], [])") blast
  from chunkLoop_closed_long [OF loop] have cs: "\<forall>c\<in>set cs. maxSize \<le> int (length c)" by simp
  have "set (butlast (chunkText text maxSize)) \<subseteq> set cs"
    using loop by (auto simp: chunkText_def dest: in_set_butlastD)
  with cs show "\<forall>c\<in>set (butlast (chunkText text maxSize)). maxSize \<le> int (length c)" by blast
next
  let ?w = "replicate (nat maxSize + 1) (97 :: jschar)"
  have "splitWs ?w = [?w]" by (rule splitWs_one_word)
  then have "chunkText ?w maxSize = [?w]"
    using assms by (simp only: chunkText_def Let_def) simp
  then show "\<exists>long. \<exists>c\<in>set (chunkText long maxSize). maxSize < int (length c)"
    by (intro exI [of _ ?w]) simp
qed

theorem chunkText_maxSize_lower_bound_witness:
  "(0 :: int) < 2
   \<and> [97, 98, 99] \<in> set (butlast (chunkText [97, 98, 99, 0x20, 100, 101, 0x20, 102] 2))
   \<and> (2 :: int) \<le> int (length [97, 98, 99 :: jschar])"
proof -
  have pos: "(0 :: int) < 2" by simp
  have chunks: "chunkText [97, 98, 99, 0x20, 100, 101, 0x20, 102] 2 = [[97, 98, 99], [100, 101], [102]]"
    by code_simp
  then have mem: "[97, 98, 99] \<in> set (butlast (chunkText [97, 98, 99, 0x20, 100, 101, 0x20, 102] 2))"
    by simp
  with chunkText_maxSize_lower_bound [OF pos, of "[97, 98, 99, 0x20, 100, 101, 0x20, 102]"]
  have "(2 :: int) \<le> int (length [97, 98, 99 :: jschar])" by blast
  with pos mem show ?thesis by blast
qed

section \<open>Properties of the embedding configuration and of the collection lifecycle\<close>

lemma serviceVectorSize_pos: "0 < serviceVectorSize service"
proof (cases service)
  case (EmbeddingService p)
  then show ?thesis by (cases p) (simp_all add: serviceVectorSize_def)
qed

text \<open>
  Claim C7, as the code has it. A configuration that selects \<open>openai\<close> without a
  (non-empty) OpenAI key, or \<open>google\<close> without a Gemini key, makes \<open>createFromConfig\<close>
  throw an \<open>McpError\<close> with code \<open>InvalidParams\<close>; with \<open>ollama\<close> no key is read and
  \<open>createFromConfig\<close> returns the service. The constructor of \<open>ApiClient\<close> builds the
  Qdrant client first. With \<open>openai\<close> or \<open>google\<close> and no key it throws in every case:
  what the constructor of the Qdrant client throws when that one rejects \<open>QDRANT_URL\<close>,
  and otherwise an \<open>Error\<close> that carries the message of the \<open>McpError\<close>. With
  \<open>ollama\<close> it returns a client exactly when the constructor of the Qdrant client accepts
  \<open>QDRANT_URL\<close>, and throws what that constructor throws when it does not. All of these
  are functions of the configuration alone: no request to a provider or to the store is
  made to reach any of the outcomes.
\<close>

theorem createFromConfig_credentials:
  "(cfgProvider config = ''openai'' \<and> \<not> truthy (cfgOpenaiApiKey config) \<longrightarrow>
      createFromConfig config =
        Inl (McpError InvalidParams ''OpenAI API key (OPENAI_API_KEY) is required for openai provider''))
 \<and> (cfgProvider config = ''google'' \<and> \<not> truthy (cfgGeminiApiKey config) \<longrightarrow>
      createFromConfig config =
        Inl (McpError InvalidParams ''Google Gemini API key (GEMINI_API_KEY) is required for google provider''))
 \<and> (cfgProvider config = ''ollama'' \<longrightarrow>
      createFromConfig config = Inr (EmbeddingService (OllamaProvider (orDefault (cfgModel config) ''nomic-embed-text''))))
 \<and> (EMBEDDING_PROVIDER env = ''openai'' \<and> \<not> truthy (envOPENAI_API_KEY env) \<longrightarrow>
      newApiClient newURL env =
        Inl (case newQdrantClient newURL (QDRANT_URL env) of
               Some error \<Rightarrow> error
             | None \<Rightarrow> JsError ''Error''
                 ''Failed to initialize EmbeddingService: MCP error -32602: OpenAI API key (OPENAI_API_KEY) is required for openai provider''))
 \<and> (EMBEDDING_PROVIDER env = ''google'' \<and> \<not> truthy (envGEMINI_API_KEY env) \<longrightarrow>
      newApiClient newURL env =
        Inl (case newQdrantClient newURL (QDRANT_URL env) of
               Some error \<Rightarrow> error
             | None \<Rightarrow> JsError ''Error''
                 ''Failed to initialize EmbeddingService: MCP error -32602: Google Gemini API key (GEMINI_API_KEY) is required for google provider''))
 \<and> (EMBEDDING_PROVIDER env = ''ollama'' \<longrightarrow>
      newApiClient newURL env =
        (case newQdrantClient newURL (QDRANT_URL env) of
           Some error \<Rightarrow> Inl error
         | None \<Rightarrow>
             Inr \<lparr>qdrantUrl = QDRANT_URL env, qdrantApiKey = envQDRANT_API_KEY env,
                   embeddingService =
                     EmbeddingService (OllamaProvider (orDefault (envEMBEDDING_MODEL env) ''nomic-embed-text''))\<rparr>))"
proof (intro conjI impI)
  assume "cfgProvider config = ''openai'' \<and> \<not> truthy (cfgOpenaiApiKey config)"
  then show "createFromConfig config =
        Inl (McpError InvalidParams ''OpenAI API key (OPENAI_API_KEY) is required for openai provider'')"
    by (cases "cfgOpenaiApiKey config") (simp_all add: createFromConfig_def)
next
  assume "cfgProvider config = ''google'' \<and> \<not> truthy (cfgGeminiApiKey config)"
  then show "createFromConfig config =
        Inl (McpError InvalidParams ''Google Gemini API key (GEMINI_API_KEY) is required for google provider'')"
    by (cases "cfgGeminiApiKey config") (simp_all add: createFromConfig_def)
next
  assume "cfgProvider config = ''ollama''"
  then show "createFromConfig config = Inr (EmbeddingService (OllamaProvider (orDefault (cfgModel config) ''nomic-embed-text'')))"
    by (simp add: createFromConfig_def newOllamaProvider_def)
next
  assume "EMBEDDING_PROVIDER env = ''openai'' \<and> \<not> truthy (envOPENAI_API_KEY env)"
  then show "newApiClient newURL env =
        Inl (case newQdrantClient newURL (QDRANT_URL env) of
               Some error \<Rightarrow> error
             | None \<Rightarrow> JsError ''Error''
                 ''Failed to initialize EmbeddingService: MCP error -32602: OpenAI API key (OPENAI_API_KEY) is required for openai provider'')"
    by (cases "envOPENAI_API_KEY env"; cases "newQdrantClient newURL (QDRANT_URL env)")
      (simp_all add: newApiClient_def createFromConfig_def messageOrValue_def)
next
  assume "EMBEDDING_PROVIDER env = ''google'' \<and> \<not> truthy (envGEMINI_API_KEY env)"
  then show "newApiClient newURL env =
        Inl (case newQdrantClient newURL (QDRANT_URL env) of
               Some error \<Rightarrow> error
             | None \<Rightarrow> JsError ''Error''
                 ''Failed to initialize EmbeddingService: MCP error -32602: Google Gemini API key (GEMINI_API_KEY) is required for google provider'')"
    by (cases "envGEMINI_API_KEY env"; cases "newQdrantClient newURL (QDRANT_URL env)")
      (simp_all add: newApiClient_def createFromConfig_def messageOrValue_def)
next
  assume "EMBEDDING_PROVIDER env = ''ollama''"
  then show "newApiClient newURL env =
        (case newQdrantClient newURL (QDRANT_URL env) of
           Some error \<Rightarrow> Inl error
         | None \<Rightarrow>
             Inr \<lparr>qdrantUrl = QDRANT_URL env, qdrantApiKey = envQDRANT_API_KEY env,
                   embeddingService =
                     EmbeddingService (OllamaProvider (orDefault (envEMBEDDING_MODEL env) ''nomic-embed-text''))\<rparr>)"
    by (cases "newQdrantClient newURL (QDRANT_URL env)")
      (simp_all add: newApiClient_def createFromConfig_def newOllamaProvider_def)
qed

theorem createFromConfig_credentials_witness:
  "createFromConfig \<lparr>cfgProvider = ''openai'', cfgModel = None, cfgOpenaiApiKey = None,
       cfgOpenaiBaseUrl = None, cfgGeminiApiKey = Some ''g''\<rparr>
     = Inl (McpError InvalidParams ''OpenAI API key (OPENAI_API_KEY) is required for openai provider'')
   \<and> createFromConfig \<lparr>cfgProvider = ''google'', cfgModel = None, cfgOpenaiApiKey = Some ''k'',
       cfgOpenaiBaseUrl = None, cfgGeminiApiKey = Some []\<rparr>
     = Inl (McpError InvalidParams ''Google Gemini API key (GEMINI_API_KEY) is required for google provider'')
   \<and> createFromConfig \<lparr>cfgProvider = ''ollama'', cfgModel = None, cfgOpenaiApiKey = None,
       cfgOpenaiBaseUrl = None, cfgGeminiApiKey = None\<rparr>
     = Inr (EmbeddingService (OllamaProvider ''nomic-embed-text''))
   \<and> newApiClient acceptsEveryUrl \<lparr>envEMBEDDING_PROVIDER = Some ''openai'', envEMBEDDING_MODEL = None,
       envOPENAI_API_KEY = None, envOPENAI_BASE_URL = None, envGEMINI_API_KEY = None,
       envQDRANT_URL = None, envQDRANT_API_KEY = None\<rparr>
     = Inl (JsError ''Error''
        ''Failed to initialize EmbeddingService: MCP error -32602: OpenAI API key (OPENAI_API_KEY) is required for openai provider'')
   \<and> newApiClient acceptsEveryUrl \<lparr>envEMBEDDING_PROVIDER = Some ''google'', envEMBEDDING_MODEL = None,
       envOPENAI_API_KEY = None, envOPENAI_BASE_URL = None, envGEMINI_API_KEY = None,
       envQDRANT_URL = Some ''qdrant.example:6333'', envQDRANT_API_KEY = None\<rparr>
     = Inl (JsError ''QdrantClientConfigError''
        ''The `url` param expected to contain a valid URL starting with a protocol (http:// or https://).'')
   \<and> newApiClient acceptsEveryUrl \<lparr>envEMBEDDING_PROVIDER = None, envEMBEDDING_MODEL = None,
       envOPENAI_API_KEY = None, envOPENAI_BASE_URL = None, envGEMINI_API_KEY = None,
       envQDRANT_URL = None, envQDRANT_API_KEY = None\<rparr>
     = Inr \<lparr>qdrantUrl = ''http://127.0.0.1:6333'', qdrantApiKey = None,
            embeddingService = EmbeddingService (OllamaProvider ''nomic-embed-text'')\<rparr>"
proof -
  let ?openai = "\<lparr>cfgProvider = ''openai'', cfgModel = None, cfgOpenaiApiKey = None,
       cfgOpenaiBaseUrl = None, cfgGeminiApiKey = Some ''g''\<rparr>"
  let ?google = "\<lparr>cfgProvider = ''google'', cfgModel = None, cfgOpenaiApiKey = Some ''k'',
       cfgOpenaiBaseUrl = None, cfgGeminiApiKey = Some []\<rparr>"
  let ?ollama = "\<lparr>cfgProvider = ''ollama'', cfgModel = None, cfgOpenaiApiKey = None,
       cfgOpenaiBaseUrl = None, cfgGeminiApiKey = None\<rparr>"
  let ?env = "\<lambda>p u. \<lparr>envEMBEDDING_PROVIDER = p, envEMBEDDING_MODEL = None,
       envOPENAI_API_KEY = None, envOPENAI_BASE_URL = None, envGEMINI_API_KEY = None,
       envQDRANT_URL = u, envQDRANT_API_KEY = None\<rparr>"
  let ?ok = "acceptsEveryUrl"
  have "cfgProvider ?openai = ''openai'' \<and> \<not> truthy (cfgOpenaiApiKey ?openai)" by simp
  with createFromConfig_credentials [of ?openai]
  have c1: "createFromConfig ?openai
     = Inl (McpError InvalidParams ''OpenAI API key (OPENAI_API_KEY) is required for openai provider'')"
    by blast
  have "cfgProvider ?google = ''google'' \<and> \<not> truthy (cfgGeminiApiKey ?google)" by simp
  with createFromConfig_credentials [of ?google]
  have c2: "createFromConfig ?google
     = Inl (McpError InvalidParams ''Google Gemini API key (GEMINI_API_KEY) is required for google provider'')"
    by blast
  have "cfgProvider ?ollama = ''ollama''" by simp
  with createFromConfig_credentials [of ?ollama]
  have c3: "createFromConfig ?ollama = Inr (EmbeddingService (OllamaProvider ''nomic-embed-text''))"
    by (simp add: orDefault_def)
  have url: "newQdrantClient ?ok (QDRANT_URL (?env p None)) = None" for p
    by (simp add: newQdrantClient_def QDRANT_URL_def orElse_def startsWith_def acceptsEveryUrl_def)
  have bad: "newQdrantClient ?ok (QDRANT_URL (?env p (Some ''qdrant.example:6333'')))
      = Some (JsError ''QdrantClientConfigError''
          ''The `url` param expected to contain a valid URL starting with a protocol (http:// or https://).'')" for p
    by (simp add: newQdrantClient_def QDRANT_URL_def orElse_def startsWith_def acceptsEveryUrl_def)
  have "newApiClient ?ok (?env (Some ''openai'') None) =
        Inl (case newQdrantClient ?ok (QDRANT_URL (?env (Some ''openai'') None)) of
               Some error \<Rightarrow> error
             | None \<Rightarrow> JsError ''Error''
                 ''Failed to initialize EmbeddingService: MCP error -32602: OpenAI API key (OPENAI_API_KEY) is required for openai provider'')"
    by (rule createFromConfig_credentials [THEN conjunct2, THEN conjunct2, THEN conjunct2,
          THEN conjunct1, THEN mp])
      (simp add: EMBEDDING_PROVIDER_def orElse_def)
  then have c4: "newApiClient ?ok (?env (Some ''openai'') None) = Inl (JsError ''Error''
        ''Failed to initialize EmbeddingService: MCP error -32602: OpenAI API key (OPENAI_API_KEY) is required for openai provider'')"
    by (simp only: url option.case)
  have "newApiClient ?ok (?env (Some ''google'') (Some ''qdrant.example:6333'')) =
        Inl (case newQdrantClient ?ok (QDRANT_URL (?env (Some ''google'') (Some ''qdrant.example:6333''))) of
               Some error \<Rightarrow> error
             | None \<Rightarrow> JsError ''Error''
                 ''Failed to initialize EmbeddingService: MCP error -32602: Google Gemini API key (GEMINI_API_KEY) is required for google provider'')"
    by (rule createFromConfig_credentials [THEN conjunct2, THEN conjunct2, THEN conjunct2,
          THEN conjunct2, THEN conjunct1, THEN mp])
      (simp add: EMBEDDING_PROVIDER_def orElse_def)
  then have c5: "newApiClient ?ok (?env (Some ''google'') (Some ''qdrant.example:6333'')) = Inl (JsError ''QdrantClientConfigError''
        ''The `url` param expected to contain a valid URL starting with a protocol (http:// or https://).'')"
    by (simp only: bad option.case)
  have "newApiClient ?ok (?env None None) =
        (case newQdrantClient ?ok (QDRANT_URL (?env None None)) of
           Some error \<Rightarrow> Inl error
         | None \<Rightarrow>
             Inr \<lparr>qdrantUrl = QDRANT_URL (?env None None), qdrantApiKey = envQDRANT_API_KEY (?env None None),
                   embeddingService =
                     EmbeddingService (OllamaProvider (orDefault (envEMBEDDING_MODEL (?env None None)) ''nomic-embed-text''))\<rparr>)"
    by (rule createFromConfig_credentials [THEN conjunct2, THEN conjunct2, THEN conjunct2,
          THEN conjunct2, THEN conjunct2, THEN mp])
      (simp add: EMBEDDING_PROVIDER_def orElse_def)
  then have "newApiClient ?ok (?env None None)
     = Inr \<lparr>qdrantUrl = QDRANT_URL (?env None None), qdrantApiKey = envQDRANT_API_KEY (?env None None),
            embeddingService = EmbeddingService (OllamaProvider (orDefault (envEMBEDDING_MODEL (?env None None)) ''nomic-embed-text''))\<rparr>"
    by (simp only: url option.case)
  then have c6: "newApiClient ?ok (?env None None)
     = Inr \<lparr>qdrantUrl = ''http://127.0.0.1:6333'', qdrantApiKey = None,
            embeddingService = EmbeddingService (OllamaProvider ''nomic-embed-text'')\<rparr>"
    by (simp add: QDRANT_URL_def orElse_def orDefault_def)
  from c1 c2 c3 c4 c5 c6 show ?thesis by (intro conjI)
qed

text \<open>
  Claim C7 as the specification states it does not hold: with the provider \<open>ollama\<close>
  the construction of the client need not succeed. With \<open>QDRANT_URL\<close> set to
  \<open>localhost:6333\<close>, which names no protocol, the constructor of the Qdrant client throws,
  and so does the constructor of \<open>ApiClient\<close>.
\<close>

theorem createFromConfig_credentials_counterexample:
  "newApiClient acceptsEveryUrl
     \<lparr>envEMBEDDING_PROVIDER = Some ''ollama'', envEMBEDDING_MODEL = None,
       envOPENAI_API_KEY = None, envOPENAI_BASE_URL = None, envGEMINI_API_KEY = None,
       envQDRANT_URL = Some ''localhost:6333'', envQDRANT_API_KEY = None\<rparr>
   = Inl (JsError ''QdrantClientConfigError''
       ''The `url` param expected to contain a valid URL starting with a protocol (http:// or https://).'')"
  by code_simp

lemma listed_iff: "name \<in> fst ` set cs \<longleftrightarrow> map_of cs name \<noteq> None"
  by (simp add: map_of_eq_None_iff)

lemma map_of_deleted: "map_of (filter (\<lambda>(n, c). n \<noteq> name) cs) name = None"
  by (induction cs) auto

lemma send_no_faults:
  "faults q = [] \<Longrightarrow> send request q = (None, q\<lparr>issued := issued q @ [request]\<rparr>)"
  by (simp add: send_def)

lemma initCollection_no_faults:
  assumes "faults q = []"
  shows "initCollection this name q =
    (Inr (),
     (case map_of (collections q) name of
        None \<Rightarrow>
          q\<lparr>collections := collections q @
               [(name, \<lparr>vectorsSize = Some (serviceVectorSize (embeddingService this)),
                        distance = ''Cosine'', points = []\<rparr>)],
            issued := issued q @ [GetCollections,
               CreateCollection name (serviceVectorSize (embeddingService this)) ''Cosine''
                 (truthy (qdrantApiKey this))]\<rparr>
      | Some c \<Rightarrow>
          if vectorsSize c = Some (serviceVectorSize (embeddingService this)) then
            q\<lparr>issued := issued q @ [GetCollections, GetCollection name]\<rparr>
          else
            q\<lparr>collections := filter (\<lambda>(n, c). n \<noteq> name) (collections q) @
                 [(name, \<lparr>vectorsSize = Some (serviceVectorSize (embeddingService this)),
                          distance = ''Cosine'', points = []\<rparr>)],
              issued := issued q @ [GetCollections, GetCollection name, DeleteCollection name,
                 CreateCollection name (serviceVectorSize (embeddingService this)) ''Cosine''
                   (truthy (qdrantApiKey this))]\<rparr>))"
proof (cases "map_of (collections q) name")
  case None
  with assms show ?thesis
    by (simp add: initCollection_def catchQdrantError_def getCollections_def listed_iff
        createQdrantCollection_def createCollection_def send_no_faults Let_def)
next
  case (Some c)
  have pos: "serviceVectorSize (embeddingService this) \<noteq> 0"
    using serviceVectorSize_pos [of "embeddingService this"] by simp
  show ?thesis
  proof (cases "vectorsSize c = Some (serviceVectorSize (embeddingService this))")
    case True
    with Some assms pos show ?thesis
      by (simp add: initCollection_def catchQdrantError_def getCollections_def listed_iff
          getCollection_def send_no_faults Let_def)
  next
    case False
    with Some assms pos show ?thesis
      by (simp add: initCollection_def catchQdrantError_def getCollections_def listed_iff
          getCollection_def recreateQdrantCollection_def deleteCollection_def
          createQdrantCollection_def createCollection_def send_no_faults map_of_deleted Let_def)
  qed
qed

text \<open>
  Claim C1. Against a store that answers every request of the call, \<open>initCollection\<close> is a
  three-way split on the state of the store. Absent name: one create with the provider's
  vector size and cosine distance. Present with a readable size equal to the required one:
  the two reads and nothing else, the store unchanged. Present with an unreadable or a
  different size: delete, then create with the required size, so that the collection is
  empty afterwards.
\<close>

theorem initCollection_three_cases:
  assumes "faults q = []"
  shows "initCollection this name q =
    (let required = serviceVectorSize (embeddingService this);
         create = CreateCollection name required ''Cosine'' (truthy (qdrantApiKey this));
         fresh = \<lparr>vectorsSize = Some required, distance = ''Cosine'', points = []\<rparr>
     in (Inr (),
         (case map_of (collections q) name of
            None \<Rightarrow>
              q\<lparr>collections := collections q @ [(name, fresh)],
                issued := issued q @ [GetCollections, create]\<rparr>
          | Some c \<Rightarrow>
              if vectorsSize c = Some required then
                q\<lparr>issued := issued q @ [GetCollections, GetCollection name]\<rparr>
              else
                q\<lparr>collections := filter (\<lambda>(n, c). n \<noteq> name) (collections q) @ [(name, fresh)],
                  issued := issued q @ [GetCollections, GetCollection name, DeleteCollection name, create]\<rparr>)))"
  using initCollection_no_faults [OF assms, of this name] by (simp add: Let_def)

theorem initCollection_three_cases_witness:
  "initCollection ollamaClient ''documentation'' \<lparr>collections = [], issued = [], faults = []\<rparr>
     = (Inr (), docStore (Some 768) []
          [GetCollections, CreateCollection ''documentation'' 768 ''Cosine'' False] [])
   \<and> initCollection ollamaClient ''documentation'' (docStore (Some 768) [oldPoint] [] [])
     = (Inr (), docStore (Some 768) [oldPoint]
          [GetCollections, GetCollection ''documentation''] [])
   \<and> initCollection ollamaClient ''documentation'' (docStore (Some 1536) [oldPoint] [] [])
     = (Inr (), docStore (Some 768) []
          [GetCollections, GetCollection ''documentation'', DeleteCollection ''documentation'',
           CreateCollection ''documentation'' 768 ''Cosine'' False] [])
   \<and> initCollection ollamaClient ''documentation'' (docStore None [oldPoint] [] [])
     = (Inr (), docStore (Some 768) []
          [GetCollections, GetCollection ''documentation'', DeleteCollection ''documentation'',
           CreateCollection ''documentation'' 768 ''Cosine'' False] [])"
proof -
  have size: "serviceVectorSize (embeddingService ollamaClient) = 768"
    by (simp add: ollamaClient_def serviceVectorSize_def)
  have key: "truthy (qdrantApiKey ollamaClient) = False"
    by (simp add: ollamaClient_def)
  have f0: "faults \<lparr>collections = [], issued = [], faults = []\<rparr> = []" by simp
  have f1: "faults (docStore (Some 768) [oldPoint] [] []) = []" by (simp add: docStore_def)
  have f2: "faults (docStore (Some 1536) [oldPoint] [] []) = []" by (simp add: docStore_def)
  have f3: "faults (docStore None [oldPoint] [] []) = []" by (simp add: docStore_def)
  show ?thesis
    using initCollection_three_cases [OF f0, of ollamaClient "''documentation''"]
      initCollection_three_cases [OF f1, of ollamaClient "''documentation''"]
      initCollection_three_cases [OF f2, of ollamaClient "''documentation''"]
      initCollection_three_cases [OF f3, of ollamaClient "''documentation''"]
    by (simp add: size key docStore_def Let_def)
qed

lemma send_fault:
  "faults q = fault # rest \<Longrightarrow>
   send request q = (fault, q\<lparr>issued := issued q @ [request], faults := rest\<rparr>)"
  by (simp add: send_def)





lemma handleQdrantError_typed:
  "handleQdrantError this error context = Inl e \<Longrightarrow> instanceofMcpError e"
  by (auto simp: handleQdrantError_def split: if_splits)

lemma catchQdrantError_typed:
  "catchQdrantError this context body q = (Inl e, q') \<Longrightarrow> instanceofMcpError e"
  by (auto simp: catchQdrantError_def split: prod.splits sum.splits dest: handleQdrantError_typed)

lemma initCollection_typed:
  "initCollection this name q = (Inl e, q') \<Longrightarrow> instanceofMcpError e"
  unfolding initCollection_def Let_def by (rule catchQdrantError_typed)

lemma initCollection_list_fails:
  assumes "faults q = Some error # rest"
  shows "initCollection this name q =
    (handleQdrantError this error ''initialize/verify'',
     q\<lparr>issued := issued q @ [GetCollections], faults := rest\<rparr>)"
  using assms
  by (simp add: initCollection_def catchQdrantError_def getCollections_def send_fault Let_def)

lemma initCollection_read_fails:
  assumes "map_of (collections q) name \<noteq> None" and "faults q = None # Some error # rest"
  shows "initCollection this name q =
    (handleQdrantError this error ''initialize/verify'',
     q\<lparr>issued := issued q @ [GetCollections, GetCollection name], faults := rest\<rparr>)"
  using assms
  by (simp add: initCollection_def catchQdrantError_def getCollections_def getCollection_def
      send_fault listed_iff Let_def)

lemma initCollection_create_fails:
  assumes "map_of (collections q) name = None" and "faults q = None # Some error # rest"
  shows "initCollection this name q =
    (case handleQdrantError this error ''create'' of
       Inr u \<Rightarrow> Inr u
     | Inl wrapped \<Rightarrow> handleQdrantError this wrapped ''initialize/verify'',
     q\<lparr>issued := issued q @ [GetCollections,
          CreateCollection name (serviceVectorSize (embeddingService this)) ''Cosine'' (truthy (qdrantApiKey this))],
        faults := rest\<rparr>)"
  using assms
  by (simp add: initCollection_def catchQdrantError_def getCollections_def
      createQdrantCollection_def createCollection_def
      send_fault listed_iff Let_def split: sum.splits)












lemma context_create [simp]: "includesStr ''create'' ''verify'' = False"
  by (simp add: includesStr_def sublist_Cons_right)

lemma context_verify [simp]: "includesStr ''initialize/verify'' ''verify'' = True"
  by (simp add: includesStr_def sublist_Cons_right)

text \<open>
  Claim C3. The claim asks that an authorization error of the store is thrown again as a
  configuration error of its own kind, and the comment in \<open>handleQdrantError\<close> says so
  as well (\<open>Auth error is likely bad config\<close>, code \<open>InvalidRequest\<close>). This holds when
  the listing or the read fails with \<open>Unauthorized\<close> (third equation below), and it is what
  \<open>handleQdrantError\<close> makes of the error on its own (fourth equation). But an error
  of the create or of the delete is handled twice, first by the handler of
  \<open>createQdrantCollection\<close> or \<open>recreateQdrantCollection\<close> and then, as the
  \<open>McpError\<close> that this one threw, by the handler of \<open>initCollection\<close>, which knows
  no \<open>Unauthorized\<close> in its message and throws the generic error with code
  \<open>InternalError\<close>: first equation for the create of an absent collection, second for
  the delete of a collection of the wrong size. The last equation is the other half of the
  claim: when the read of a listed collection fails with \<open>Not found\<close> the error is
  swallowed, and the call returns at once, with no create sent and the store as it was.
\<close>

theorem initCollection_create_unauthorized:
  "fst (initCollection ollamaClient ''documentation''
     \<lparr>collections = [], issued = [], faults = [None, Some (JsError ''Error'' ''Unauthorized'')]\<rparr>)
   = Inl (McpError InternalError
       ''Qdrant error during collection initialize/verify: MCP error -32600: Authentication failed for Qdrant during collection create. Please check QDRANT_API_KEY if using Qdrant Cloud.'')
 \<and> fst (initCollection ollamaClient ''documentation''
     (docStore (Some 1536) [oldPoint] [] [None, None, Some (JsError ''Error'' ''Unauthorized'')]))
   = Inl (McpError InternalError
       ''Qdrant error during collection initialize/verify: MCP error -32600: Authentication failed for Qdrant during collection recreate. Please check QDRANT_API_KEY if using Qdrant Cloud.'')
 \<and> fst (initCollection ollamaClient ''documentation''
     \<lparr>collections = [], issued = [], faults = [Some (JsError ''Error'' ''Unauthorized'')]\<rparr>)
   = Inl (McpError InvalidRequest
       ''Authentication failed for Qdrant during collection initialize/verify. Please check QDRANT_API_KEY if using Qdrant Cloud.'')
 \<and> handleQdrantError ollamaClient (JsError ''Error'' ''Unauthorized'') ''create''
   = Inl (McpError InvalidRequest
       ''Authentication failed for Qdrant during collection create. Please check QDRANT_API_KEY if using Qdrant Cloud.'')
 \<and> initCollection ollamaClient ''documentation''
     (docStore (Some 1536) [oldPoint] []
        [None, Some (JsError ''Error'' ''Not found: Collection `documentation` doesn't exist!'')])
   = (Inr (), docStore (Some 1536) [oldPoint]
        [GetCollections, GetCollection ''documentation''] [])"
  by code_simp

text \<open>
  What the handlers make of an error of the listing, of the read, or of the create of an
  absent collection, for every state of the store and every client.
\<close>

lemma initCollection_error_paths:
  "(map_of (collections q) name \<noteq> None \<and> faults q = None # Some error # rest
      \<and> instanceofError error \<and> includesStr (errorMessage error) ''Not found'' \<longrightarrow>
    initCollection this name q =
      (Inr (), q\<lparr>issued := issued q @ [GetCollections, GetCollection name], faults := rest\<rparr>))
 \<and> (faults q = Some error # rest
      \<and> instanceofError error \<and> includesStr (errorMessage error) ''Not found'' \<longrightarrow>
    initCollection this name q =
      (Inr (), q\<lparr>issued := issued q @ [GetCollections], faults := rest\<rparr>))
 \<and> (map_of (collections q) name = None \<and> faults q = None # Some error # rest
      \<and> instanceofError error \<and> includesStr (errorMessage error) ''already exists'' \<longrightarrow>
    initCollection this name q =
      (Inr (), q\<lparr>issued := issued q @ [GetCollections,
          CreateCollection name (serviceVectorSize (embeddingService this)) ''Cosine''
            (truthy (qdrantApiKey this))], faults := rest\<rparr>))
 \<and> (\<forall>e q'. initCollection this name q = (Inl e, q') \<longrightarrow> instanceofMcpError e)
 \<and> ((faults q = Some error # rest
        \<or> map_of (collections q) name \<noteq> None \<and> faults q = None # Some error # rest)
      \<and> instanceofError error \<and> \<not> includesStr (errorMessage error) ''Not found'' \<longrightarrow>
    fst (initCollection this name q) =
      (if includesStr (errorMessage error) ''timed out'' \<or> includesStr (errorMessage error) ''ECONNREFUSED'' then
         Inl (McpError InternalError
           (''Connection to Qdrant ('' @ qdrantUrl this
             @ '') failed during collection initialize/verify. Please check Qdrant status and URL.''))
       else if includesStr (errorMessage error) ''Unauthorized'' \<or> includesStr (errorMessage error) ''Forbidden'' then
         Inl (McpError InvalidRequest
           ''Authentication failed for Qdrant during collection initialize/verify. Please check QDRANT_API_KEY if using Qdrant Cloud.'')
       else
         Inl (McpError InternalError
           (''Qdrant error during collection initialize/verify: '' @ errorMessage error))))"
proof (intro conjI impI allI)
  assume "map_of (collections q) name \<noteq> None \<and> faults q = None # Some error # rest
      \<and> instanceofError error \<and> includesStr (errorMessage error) ''Not found''"
  then show "initCollection this name q =
      (Inr (), q\<lparr>issued := issued q @ [GetCollections, GetCollection name], faults := rest\<rparr>)"
    by (simp add: initCollection_read_fails handleQdrantError_def)
next
  assume "faults q = Some error # rest
      \<and> instanceofError error \<and> includesStr (errorMessage error) ''Not found''"
  then show "initCollection this name q =
      (Inr (), q\<lparr>issued := issued q @ [GetCollections], faults := rest\<rparr>)"
    by (simp add: initCollection_list_fails handleQdrantError_def)
next
  assume "map_of (collections q) name = None \<and> faults q = None # Some error # rest
      \<and> instanceofError error \<and> includesStr (errorMessage error) ''already exists''"
  then show "initCollection this name q =
      (Inr (), q\<lparr>issued := issued q @ [GetCollections,
          CreateCollection name (serviceVectorSize (embeddingService this)) ''Cosine''
            (truthy (qdrantApiKey this))], faults := rest\<rparr>)"
    by (simp add: initCollection_create_fails handleQdrantError_def)
next
  fix e q'
  assume "initCollection this name q = (Inl e, q')"
  then show "instanceofMcpError e" by (rule initCollection_typed)
next
  assume a: "(faults q = Some error # rest
        \<or> map_of (collections q) name \<noteq> None \<and> faults q = None # Some error # rest)
      \<and> instanceofError error \<and> \<not> includesStr (errorMessage error) ''Not found''"
  then have "fst (initCollection this name q) = handleQdrantError this error ''initialize/verify''"
    by (auto simp: initCollection_list_fails initCollection_read_fails)
  with a show "fst (initCollection this name q) =
      (if includesStr (errorMessage error) ''timed out'' \<or> includesStr (errorMessage error) ''ECONNREFUSED'' then
         Inl (McpError InternalError
           (''Connection to Qdrant ('' @ qdrantUrl this
             @ '') failed during collection initialize/verify. Please check Qdrant status and URL.''))
       else if includesStr (errorMessage error) ''Unauthorized'' \<or> includesStr (errorMessage error) ''Forbidden'' then
         Inl (McpError InvalidRequest
           ''Authentication failed for Qdrant during collection initialize/verify. Please check QDRANT_API_KEY if using Qdrant Cloud.'')
       else
         Inl (McpError InternalError
           (''Qdrant error during collection initialize/verify: '' @ errorMessage error)))"
    by (simp add: handleQdrantError_def)
qed

section \<open>Properties of the handler of \<open>add_documentation\<close>\<close>

lemma stripCommon_up: "\<not> prefix from to \<Longrightarrow> fst (stripCommon from to) \<noteq> []"
  by (induction "from" to rule: stripCommon.induct) (auto split: if_splits)

lemma joinSlash_dotdot: "startsWith (joinSlash (''..'' # segs)) ''..''"
  by (cases segs) (simp_all add: startsWith_def)

lemma relative_outside:
  assumes "\<not> prefix from to"
  shows "startsWith (relative from to) ''..''"
proof -
  obtain up down where s: "stripCommon from to = (up, down)" by (cases "stripCommon from to")
  with stripCommon_up [OF assms] have "up \<noteq> []" by simp
  then obtain n where "length up = Suc n" by (cases up) simp_all
  with s show ?thesis by (simp add: relative_def joinSlash_dotdot)
qed

text \<open>
  Claim C6. A source that is not empty and starts with neither \<open>http://\<close> nor
  \<open>https://\<close> is a local path. When the path it resolves to in the working directory is
  outside that directory (the segments of the resolved working directory are no prefix of
  its segments), \<open>handle\<close> throws an \<open>McpError\<close> with code \<open>InvalidParams\<close> and leaves
  the world as it was: no file was accessed or read, no text embedded, no request sent to the
  store.
\<close>

theorem path_traversal_rejected:
  assumes "source \<noteq> []"
    and "\<not> startsWith source ''http://''" and "\<not> startsWith source ''https://''"
    and "\<not> prefix (resolve (cwd w) ''.'') (resolve (cwd w) source)"
  shows "handle this (ArgsValue (Some source)) w =
    (Inl (McpError InvalidParams ''Access denied: Path is outside the allowed workspace directory.''), w)"
proof -
  from relative_outside [OF assms(4)]
  have "readLocalFile source w =
    (Inl (McpError InvalidParams ''Access denied: Path is outside the allowed workspace directory.''), w)"
    by (simp add: readLocalFile_def Let_def)
  with assms(2,3) have "fetchAndProcessUrl source w =
    (Inl (McpError InvalidParams ''Access denied: Path is outside the allowed workspace directory.''), w)"
    by (simp add: fetchAndProcessUrl_def)
  with assms(1) show ?thesis by (simp add: handle_def handleBody_def)
qed

theorem path_traversal_rejected_witness:
  "handle ollamaClient (ArgsValue (Some ''../../etc/passwd'')) (notesWorld (docStore (Some 2) [oldPoint] [] []))
     = (Inl (McpError InvalidParams ''Access denied: Path is outside the allowed workspace directory.''),
        notesWorld (docStore (Some 2) [oldPoint] [] []))"
proof -
  let ?w = "notesWorld (docStore (Some 2) [oldPoint] [] [])"
  have h1: "''../../etc/passwd'' \<noteq> []" by simp
  have h2: "\<not> startsWith ''../../etc/passwd'' ''http://''" by (simp add: startsWith_def)
  have h3: "\<not> startsWith ''../../etc/passwd'' ''https://''" by (simp add: startsWith_def)
  have "cwd ?w = ''/srv/app''" by (simp add: notesWorld_def)
  moreover have "\<not> prefix (resolve ''/srv/app'' ''.'') (resolve ''/srv/app'' ''../../etc/passwd'')"
    by code_simp
  ultimately have h4: "\<not> prefix (resolve (cwd ?w) ''.'') (resolve (cwd ?w) ''../../etc/passwd'')"
    by simp
  from path_traversal_rejected [OF h1 h2 h3 h4] show ?thesis .
qed

text \<open>
  The two \<open>catch\<close> clauses in general. A failed upsert of a batch is thrown on through
  \<open>rethrowUpsertError\<close>. An \<open>McpError\<close> thrown by the body of \<open>handle\<close> is thrown by
  \<open>handle\<close> unchanged, any other value thrown by the body makes \<open>handle\<close> return a
  response with \<open>isError\<close> set, and what \<open>handle\<close> throws for an \<open>args\<close> that is an
  object is an \<open>McpError\<close>.
\<close>

lemma batchLoop_upsert_fails:
  assumes "i < length chunks"
    and "embedBatch this i (take batchSize (drop i chunks)) w = (Inr pts, w1)"
    and "upsert COLLECTION_NAME pts (qdrant w1) = (Inl error, q)"
  shows "batchLoop this i chunks w = (Inl (rethrowUpsertError error), w1\<lparr>qdrant := q\<rparr>)"
  using assms by (subst batchLoop.simps) simp

lemma handle_rethrows:
  "(source \<noteq> [] \<and> handleBody this source w = (Inl thrownValue, w') \<and> instanceofMcpError thrownValue \<longrightarrow>
    handle this (ArgsValue (Some source)) w = (Inl thrownValue, w'))
 \<and> (source \<noteq> [] \<and> handleBody this source w = (Inl thrownValue, w') \<and> \<not> instanceofMcpError thrownValue \<longrightarrow>
    handle this (ArgsValue (Some source)) w =
      (Inr \<lparr>contentText = ''Failed to add documentation: '' @ toString thrownValue, isError = True\<rparr>, w'))
 \<and> (handle this (ArgsValue a) w = (Inl e, v) \<longrightarrow> instanceofMcpError e)"
  by (auto simp: handle_def split: option.splits if_splits prod.splits sum.splits)

text \<open>
  Claim C8. The claim asks that a failure of the upsert that tells of a missing
  authorization, or of a timeout, is thrown again as a typed error. The \<open>catch\<close> clause
  around the upsert looks for \<open>unauthorized\<close> in lower case, and for \<open>ECONNREFUSED\<close>
  and \<open>ETIMEDOUT\<close>; \<open>handleQdrantError\<close> of the same client looks for
  \<open>Unauthorized\<close> and for \<open>timed out\<close>. So an upsert that fails with
  \<open>Unauthorized\<close> is thrown on as it is, and \<open>handle\<close> returns the generic response
  with \<open>isError\<close> (first equation), where \<open>handleQdrantError\<close> throws an \<open>McpError\<close>
  with code \<open>InvalidRequest\<close> for the same error (second equation) and where the same
  upsert failing with \<open>401 unauthorized\<close> is typed (third). Likewise \<open>timed out\<close>
  gets the generic response (fourth) and \<open>ETIMEDOUT\<close> the typed error (fifth). And the
  check of \<open>args.url\<close> stands before the \<open>try\<close> block: for \<open>args\<close> undefined
  \<open>handle\<close> throws a \<open>TypeError\<close>, neither typed nor turned into a response (sixth).
\<close>

theorem add_documentation_unauthorized:
  "fst (handle ollamaClient (ArgsValue (Some ''notes.txt''))
         (notesWorld (docStore (Some 2) [] [] [Some (JsError ''Error'' ''Unauthorized'')])))
     = Inr \<lparr>contentText = ''Failed to add documentation: Error: Unauthorized'', isError = True\<rparr>
   \<and> handleQdrantError ollamaClient (JsError ''Error'' ''Unauthorized'') ''recreate''
     = Inl (McpError InvalidRequest
         ''Authentication failed for Qdrant during collection recreate. Please check QDRANT_API_KEY if using Qdrant Cloud.'')
   \<and> fst (handle ollamaClient (ArgsValue (Some ''notes.txt''))
         (notesWorld (docStore (Some 2) [] [] [Some (JsError ''Error'' ''401 unauthorized'')])))
     = Inl (McpError InvalidRequest ''Failed to authenticate with Qdrant cloud while adding documents'')
   \<and> fst (handle ollamaClient (ArgsValue (Some ''notes.txt''))
         (notesWorld (docStore (Some 2) [] [] [Some (JsError ''Error'' ''The operation timed out'')])))
     = Inr \<lparr>contentText = ''Failed to add documentation: Error: The operation timed out'', isError = True\<rparr>
   \<and> fst (handle ollamaClient (ArgsValue (Some ''notes.txt''))
         (notesWorld (docStore (Some 2) [] [] [Some (JsError ''Error'' ''connect ETIMEDOUT 10.0.0.1:6333'')])))
     = Inl (McpError InternalError ''Connection to Qdrant cloud failed while adding documents'')
   \<and> fst (handle ollamaClient ArgsUndefined (notesWorld (docStore (Some 2) [] [] [])))
     = Inl (JsError ''TypeError'' ''Cannot read properties of undefined (reading 'url')'')"
  by code_simp

lemma blocksAt_0: "blocksAt stream start 0 = []"
  by (simp add: blocksAt_def)

lemma blocksAt_Suc:
  "blocksAt stream start (Suc n) = map stream [start ..< start + 16] # blocksAt stream (start + 16) n"
proof -
  have "[0 ..< Suc n] = 0 # map Suc [0 ..< n]"
    by (simp add: upt_conv_Cons map_Suc_upt del: upt_Suc)
  then show ?thesis
    by (simp add: blocksAt_def comp_def algebra_simps del: upt_Suc)
qed

lemma blocksAt_add:
  "blocksAt stream start (m + n) = blocksAt stream start m @ blocksAt stream (start + 16 * m) n"
proof (induction m arbitrary: start)
  case 0
  then show ?case by (simp add: blocksAt_0)
next
  case (Suc m)
  have "blocksAt stream start (Suc m + n) = blocksAt stream start (Suc (m + n))" by simp
  also have "\<dots> = map stream [start ..< start + 16] # blocksAt stream (start + 16) (m + n)"
    by (rule blocksAt_Suc)
  also have "blocksAt stream (start + 16) (m + n)
      = blocksAt stream (start + 16) m @ blocksAt stream (start + 16 + 16 * m) n"
    by (rule Suc.IH)
  finally show ?case by (simp add: blocksAt_Suc add.assoc)
qed

lemma length_blocksAt: "length (blocksAt stream start n) = n"
  by (simp add: blocksAt_def)

lemma getEmbeddings_keeps:
  "getEmbeddings this input w = (r, w') \<Longrightarrow>
   qdrant w' = qdrant w \<and> randomStream w' = randomStream w \<and> drawn w' = drawn w
   \<and> completionTime w' = completionTime w"
  by (auto simp: getEmbeddings_def generateEmbeddings_def split: sum.splits)

lemma startEmbeddings_keeps:
  "startEmbeddings this batch w = (outcomes, w') \<Longrightarrow>
   length outcomes = length batch
   \<and> qdrant w' = qdrant w \<and> randomStream w' = randomStream w \<and> drawn w' = drawn w
   \<and> completionTime w' = completionTime w"
proof (induction batch arbitrary: w outcomes w')
  case Nil
  then show ?case by simp
next
  case (Cons chunk batch)
  obtain outcome w1 where e: "getEmbeddings this (chunk_text chunk) w = (outcome, w1)"
    by (cases "getEmbeddings this (chunk_text chunk) w")
  obtain rest w2 where r: "startEmbeddings this batch w1 = (rest, w2)"
    by (cases "startEmbeddings this batch w1")
  from Cons.prems e r have "outcomes = outcome # rest" and "w' = w2" by simp_all
  with Cons.IH [OF r] getEmbeddings_keeps [OF e] show ?case by simp
qed

lemma settle_ids:
  "settle order outcomes w = (Inr ids, w') \<Longrightarrow>
   map fst ids = order
   \<and> map snd ids = map toHex (blocksAt (randomStream w) (drawn w) (length order))
   \<and> qdrant w' = qdrant w \<and> randomStream w' = randomStream w
   \<and> drawn w' = drawn w + 16 * length order"
proof (induction order arbitrary: w ids w')
  case Nil
  then show ?case by (simp add: blocksAt_0)
next
  case (Cons k order)
  define w1 where "w1 = w\<lparr>drawn := drawn w + 16\<rparr>"
  have g: "generatePointId w = (toHex (map (randomStream w) [drawn w ..< drawn w + 16]), w1)"
    by (simp add: generatePointId_def randomBytes_def w1_def)
  from Cons.prems g obtain rest where
    r: "settle order outcomes w1 = (Inr rest, w')"
    and ids: "ids = (k, toHex (map (randomStream w) [drawn w ..< drawn w + 16])) # rest"
    by (auto split: prod.splits sum.splits)
  have k1: "qdrant w1 = qdrant w" "randomStream w1 = randomStream w" "drawn w1 = drawn w + 16"
    by (simp_all add: w1_def)
  from Cons.IH [OF r] k1 ids show ?case
    by (simp add: blocksAt_Suc)
qed

lemma completionOrder_perm: "mset (completionOrder w i n) = mset [0 ..< n]"
  by (simp add: completionOrder_def)

lemma completionOrder_set: "set (completionOrder w i n) = {0 ..< n}"
  by (simp add: completionOrder_def)

lemma completionOrder_distinct: "distinct (completionOrder w i n)"
  by (simp add: completionOrder_def)

lemma completionOrder_length: "length (completionOrder w i n) = n"
  by (simp add: completionOrder_def)

lemma completionOrder_nth: "j < n \<Longrightarrow> completionOrder w i n ! j < n"
  using completionOrder_set [of w i n] completionOrder_length [of w i n]
  by (metis atLeastLessThan_iff nth_mem)

lemma map_of_ids:
  assumes "distinct (map fst ids)" and "j < length ids"
  shows "map_of ids (map fst ids ! j) = Some (map snd ids ! j)"
proof -
  have "map_of (zip (map fst ids) (map snd ids)) (map fst ids ! j) = Some (map snd ids ! j)"
    using assms by (intro map_of_zip_nth) simp_all
  then show ?thesis by (simp add: zip_map_fst_snd)
qed

lemma embedBatch_points:
  assumes "embedBatch this i batch w = (Inr pts, w')"
  shows "map (\<lambda>k. pointId (pts ! k)) (completionOrder w i (length batch))
       = map toHex (blocksAt (randomStream w) (drawn w) (length batch))
   \<and> map payload pts = batch
   \<and> qdrant w' = qdrant w \<and> randomStream w' = randomStream w
   \<and> drawn w' = drawn w + 16 * length batch
   \<and> completionTime w' = completionTime w"
proof -
  let ?n = "length batch"
  obtain outcomes w1 where s: "startEmbeddings this batch w = (outcomes, w1)"
    by (cases "startEmbeddings this batch w")
  from startEmbeddings_keeps [OF s] have k1: "length outcomes = ?n" "qdrant w1 = qdrant w"
    "randomStream w1 = randomStream w" "drawn w1 = drawn w" "completionTime w1 = completionTime w"
    by simp_all
  have o: "completionOrder w1 i ?n = completionOrder w i ?n"
    by (simp add: completionOrder_def k1)
  let ?order = "completionOrder w i ?n"
  from assms s o obtain ids where t: "settle ?order outcomes w1 = (Inr ids, w')"
    and pts: "pts = map (\<lambda>k. \<lparr>pointId = (case map_of ids k of Some pid \<Rightarrow> pid | None \<Rightarrow> []),
                              vector = (case outcomes ! k of Inr embedding \<Rightarrow> embedding | Inl error \<Rightarrow> []),
                              payload = batch ! k,
                              payloadType = ''DocumentChunk''\<rparr>) [0 ..< ?n]"
    by (auto simp: embedBatch_def split: prod.splits sum.splits)
  from settle_ids [OF t] k1 have f: "map fst ids = ?order"
    and i: "map snd ids = map toHex (blocksAt (randomStream w) (drawn w) ?n)"
    and k2: "qdrant w' = qdrant w" "randomStream w' = randomStream w" "drawn w' = drawn w + 16 * ?n"
    by (simp_all add: completionOrder_length)
  from arg_cong [OF f, of length] have li: "length ids = ?n" by (simp add: completionOrder_length)
  have d: "distinct (map fst ids)" unfolding f by (rule completionOrder_distinct)
  have "map (\<lambda>k. pointId (pts ! k)) ?order = map snd ids"
  proof (rule nth_equalityI)
    show "length (map (\<lambda>k. pointId (pts ! k)) ?order) = length (map snd ids)"
      by (simp add: li completionOrder_length)
  next
    fix j
    assume "j < length (map (\<lambda>k. pointId (pts ! k)) ?order)"
    then have j: "j < ?n" by (simp add: completionOrder_length)
    then have lt: "?order ! j < ?n" by (rule completionOrder_nth)
    from j li have "map_of ids (map fst ids ! j) = Some (map snd ids ! j)"
      by (intro map_of_ids [OF d]) simp
    then have "map_of ids (?order ! j) = Some (map snd ids ! j)" unfolding f .
    with lt have "pointId (pts ! (?order ! j)) = map snd ids ! j"
      unfolding pts by simp
    with j show "map (\<lambda>k. pointId (pts ! k)) ?order ! j = map snd ids ! j"
      by (simp add: completionOrder_length)
  qed
  with i have ids: "map (\<lambda>k. pointId (pts ! k)) ?order
      = map toHex (blocksAt (randomStream w) (drawn w) ?n)" by simp
  have pl: "map payload pts = batch"
    unfolding pts by (simp add: comp_def map_nth)
  have t': "completionTime w' = completionTime w"
  proof -
    have "\<And>order outcomes w ids w'. settle order outcomes w = (Inr ids, w') \<Longrightarrow>
        completionTime w' = completionTime w"
    proof -
      fix order :: "nat list" and outcomes w ids w'
      show "settle order outcomes w = (Inr ids, w') \<Longrightarrow> completionTime w' = completionTime w"
      proof (induction order arbitrary: w ids)
        case Nil
        then show ?case by simp
      next
        case (Cons k order)
        from Cons.prems obtain rest where
          "settle order outcomes (w\<lparr>drawn := drawn w + 16\<rparr>) = (Inr rest, w')"
          by (auto simp: generatePointId_def randomBytes_def split: prod.splits sum.splits)
        from Cons.IH [OF this] show ?case by simp
      qed
    qed
    from this [OF t] k1 show ?thesis by simp
  qed
  from ids pl k2 t' show ?thesis by simp
qed

lemma embedBatch_length:
  assumes "embedBatch this i batch w = (Inr pts, w')"
  shows "length pts = length batch"
proof -
  from embedBatch_points [OF assms] have "map payload pts = batch" by simp
  then have "length (map payload pts) = length batch" by simp
  then show ?thesis by simp
qed

lemma embedBatch_ids_mset:
  assumes "embedBatch this i batch w = (Inr pts, w')"
  shows "mset (map pointId pts) = mset (map toHex (blocksAt (randomStream w) (drawn w) (length batch)))"
proof -
  let ?order = "completionOrder w i (length batch)"
  from embedBatch_length [OF assms] have "map pointId pts = map (\<lambda>k. pointId (pts ! k)) [0 ..< length batch]"
    by (intro nth_equalityI) simp_all
  then have "mset (map pointId pts) = image_mset (\<lambda>k. pointId (pts ! k)) (mset [0 ..< length batch])"
    by simp
  also have "\<dots> = image_mset (\<lambda>k. pointId (pts ! k)) (mset ?order)"
    by (simp only: completionOrder_perm)
  also have "\<dots> = mset (map (\<lambda>k. pointId (pts ! k)) ?order)" by simp
  finally show ?thesis using embedBatch_points [OF assms] by simp
qed

lemma upsertPoint_fresh: "pointId p \<notin> pointId ` set stored \<Longrightarrow> upsertPoint stored p = stored @ [p]"
  by (induction stored) auto

lemma upsertPoints_fresh:
  "distinct (map pointId new) \<Longrightarrow> pointId ` set new \<inter> pointId ` set stored = {} \<Longrightarrow>
   upsertPoints stored new = stored @ new"
proof (induction new arbitrary: stored)
  case Nil
  then show ?case by (simp add: upsertPoints_def)
next
  case (Cons p new)
  from Cons.prems have fresh: "pointId p \<notin> pointId ` set stored" by auto
  from Cons.prems have "distinct (map pointId new)"
    and "pointId ` set new \<inter> pointId ` set (stored @ [p]) = {}" by auto
  from Cons.IH [OF this] have "upsertPoints (stored @ [p]) new = (stored @ [p]) @ new" .
  with fresh show ?case by (simp add: upsertPoints_def upsertPoint_fresh)
qed

lemma map_of_update_named:
  "map_of (map (\<lambda>(n, c). if n = name then (n, f c) else (n, c)) cs) name = map_option f (map_of cs name)"
  by (induction cs) auto

lemma upsert_stored:
  assumes "upsert name new q = (Inr u, q')" and "map_of (collections q) name = Some c"
  shows "map_of (collections q') name = Some (c\<lparr>points := upsertPoints (points c) new\<rparr>)"
proof -
  obtain f q1 where s: "send (Upsert name new) q = (f, q1)" by (cases "send (Upsert name new) q")
  then have c1: "collections q1 = collections q"
    by (auto simp: send_def split: list.splits)
  from assms s c1 show ?thesis
    by (auto simp: upsert_def map_of_update_named split: option.splits if_splits)
qed

lemma hexDigit_inj: "a < 16 \<Longrightarrow> b < 16 \<Longrightarrow> hexDigit a = hexDigit b \<Longrightarrow> a = b"
proof -
  assume a: "a < 16" and b: "b < 16" and e: "hexDigit a = hexDigit b"
  have d: "distinct ''0123456789abcdef''" by simp
  have l: "length ''0123456789abcdef'' = 16" by simp
  from e have "''0123456789abcdef'' ! a = ''0123456789abcdef'' ! b" by (simp add: hexDigit_def)
  with nth_eq_iff_index_eq [OF d, of a b] a b l show "a = b" by simp
qed

lemma hexByte_inj: "hexByte a = hexByte b \<Longrightarrow> a = b"
proof -
  assume e: "hexByte a = hexByte b"
  have a: "unat a < 256" using unsigned_less [of a] by simp
  have b: "unat b < 256" using unsigned_less [of b] by simp
  from e have "hexDigit (unat a div 16) = hexDigit (unat b div 16)"
    and "hexDigit (unat a mod 16) = hexDigit (unat b mod 16)" by (simp_all add: hexByte_def)
  with hexDigit_inj [of "unat a div 16" "unat b div 16"]
    hexDigit_inj [of "unat a mod 16" "unat b mod 16"] a b
  have "unat a div 16 = unat b div 16" and "unat a mod 16 = unat b mod 16"
    by simp_all
  then have "unat a = unat b" by (metis div_mult_mod_eq)
  then show "a = b" by (simp add: word_unat_eq_iff)
qed

lemma toHex_inj: "length a = length b \<Longrightarrow> toHex a = toHex b \<Longrightarrow> a = b"
proof (induction a b rule: list_induct2)
  case Nil
  then show ?case by simp
next
  case (Cons x xs y ys)
  from Cons.prems have "hexByte x @ toHex xs = hexByte y @ toHex ys" by (simp add: toHex_def)
  moreover have "length (hexByte x) = length (hexByte y)" by (simp add: hexByte_def)
  ultimately have "hexByte x = hexByte y" and "toHex xs = toHex ys" by simp_all
  with Cons.IH show ?case by (simp add: hexByte_inj)
qed

lemma blocksAt_length: "b \<in> set (blocksAt stream start n) \<Longrightarrow> length b = 16"
  by (auto simp: blocksAt_def)

lemma distinct_ids:
  assumes "distinct (blocksAt stream start n)"
  shows "distinct (map toHex (blocksAt stream start n))"
proof -
  have "inj_on toHex (set (blocksAt stream start n))"
    by (rule inj_onI) (simp add: toHex_inj blocksAt_length)
  with assms show ?thesis by (simp add: distinct_map)
qed

lemma batchLoop_adds:
  "batchLoop this i chunks w = (Inr u, w') \<Longrightarrow>
   map_of (collections (qdrant w)) COLLECTION_NAME = Some c \<Longrightarrow>
   distinct (map toHex (blocksAt (randomStream w) (drawn w) (length chunks - i))) \<Longrightarrow>
   toHex ` set (blocksAt (randomStream w) (drawn w) (length chunks - i)) \<inter> pointId ` set (points c) = {} \<Longrightarrow>
   \<exists>new. map_of (collections (qdrant w')) COLLECTION_NAME = Some (c\<lparr>points := points c @ new\<rparr>)
     \<and> map payload new = drop i chunks
     \<and> mset (map pointId new) = mset (map toHex (blocksAt (randomStream w) (drawn w) (length chunks - i)))"
proof (induction this i chunks w arbitrary: c rule: batchLoop.induct)
  case (1 this i chunks w)
  show ?case
  proof (cases "i < length chunks")
    case False
    with "1.prems"(1) have "w' = w" by (subst (asm) batchLoop.simps) simp
    with False "1.prems"(2) show ?thesis
      by (intro exI [of _ "[]"]) (simp add: blocksAt_0)
  next
    case True
    let ?b = "take batchSize (drop i chunks)"
    let ?s = "randomStream w" and ?d = "drawn w"
    from True "1.prems"(1) obtain pts w1 where eb: "embedBatch this i ?b w = (Inr pts, w1)"
      by (subst (asm) batchLoop.simps) (auto split: prod.splits sum.splits)
    from True "1.prems"(1) eb obtain u1 q where up: "upsert COLLECTION_NAME pts (qdrant w1) = (Inr u1, q)"
      by (subst (asm) batchLoop.simps) (auto split: prod.splits sum.splits)
    from True "1.prems"(1) eb up
    have rec: "batchLoop this (i + batchSize) chunks (w1\<lparr>qdrant := q\<rparr>) = (Inr u, w')"
      by (subst (asm) batchLoop.simps) simp
    define m where "m = length ?b"
    define rest where "rest = length chunks - (i + batchSize)"
    have split: "length chunks - i = m + rest"
      using True by (auto simp: m_def rest_def min_def)
    from embedBatch_ids_mset [OF eb]
    have ids: "mset (map pointId pts) = mset (map toHex (blocksAt ?s ?d m))"
      by (simp add: m_def)
    from embedBatch_points [OF eb] have
      pl: "map payload pts = ?b"
      and k: "qdrant w1 = qdrant w" "randomStream w1 = ?s" "drawn w1 = ?d + 16 * m"
      by (simp_all add: m_def)
    have blocks: "blocksAt ?s ?d (length chunks - i) = blocksAt ?s ?d m @ blocksAt ?s (?d + 16 * m) rest"
      unfolding split by (rule blocksAt_add)
    have ids_set: "pointId ` set pts = toHex ` set (blocksAt ?s ?d m)"
      using mset_eq_setD [OF ids] by simp
    from "1.prems"(3) have "distinct (map toHex (blocksAt ?s ?d m))"
      and d2: "distinct (map toHex (blocksAt ?s (?d + 16 * m) rest))"
      unfolding blocks by simp_all
    with mset_eq_imp_distinct_iff [OF ids] have d1: "distinct (map pointId pts)" by simp
    from "1.prems"(3) have d3: "pointId ` set pts \<inter> toHex ` set (blocksAt ?s (?d + 16 * m) rest) = {}"
      unfolding blocks ids_set by simp
    from "1.prems"(4) have f1: "pointId ` set pts \<inter> pointId ` set (points c) = {}"
      and f2: "toHex ` set (blocksAt ?s (?d + 16 * m) rest) \<inter> pointId ` set (points c) = {}"
      unfolding blocks ids_set by auto
    from "1.prems"(2) k have "map_of (collections (qdrant w1)) COLLECTION_NAME = Some c" by simp
    from upsert_stored [OF up this] upsertPoints_fresh [OF d1 f1]
    have st: "map_of (collections q) COLLECTION_NAME = Some (c\<lparr>points := points c @ pts\<rparr>)" by simp
    let ?w2 = "w1\<lparr>qdrant := q\<rparr>"
    let ?c2 = "c\<lparr>points := points c @ pts\<rparr>"
    have p2: "map_of (collections (qdrant ?w2)) COLLECTION_NAME = Some ?c2" using st by simp
    have p3: "distinct (map toHex (blocksAt (randomStream ?w2) (drawn ?w2) (length chunks - (i + batchSize))))"
      using d2 k by (simp add: rest_def)
    have p4: "toHex ` set (blocksAt (randomStream ?w2) (drawn ?w2) (length chunks - (i + batchSize)))
        \<inter> pointId ` set (points ?c2) = {}"
      using f2 d3 k by (auto simp: rest_def)
    from "1.IH" [OF True eb [symmetric] refl up [symmetric] refl rec p2 p3 p4]
    obtain new where
      n1: "map_of (collections (qdrant w')) COLLECTION_NAME = Some (?c2\<lparr>points := points ?c2 @ new\<rparr>)"
      and n2: "map payload new = drop (i + batchSize) chunks"
      and n3: "mset (map pointId new)
        = mset (map toHex (blocksAt (randomStream ?w2) (drawn ?w2) (length chunks - (i + batchSize))))"
      by blast
    have "take batchSize (drop i chunks) @ drop (i + batchSize) chunks = drop i chunks"
      using append_take_drop_id [of batchSize "drop i chunks"] by (simp add: add.commute)
    with n2 pl have "map payload (pts @ new) = drop i chunks" by simp
    moreover from n3 ids k
    have "mset (map pointId (pts @ new)) = mset (map toHex (blocksAt ?s ?d (length chunks - i)))"
      unfolding blocks by (simp add: rest_def)
    moreover from n1 have "map_of (collections (qdrant w')) COLLECTION_NAME
        = Some (c\<lparr>points := points c @ (pts @ new)\<rparr>)" by simp
    ultimately show ?thesis by blast
  qed
qed

lemma stampChunks_keeps:
  "stampChunks source ttl cs w = (chunks, w') \<Longrightarrow>
   qdrant w' = qdrant w \<and> randomStream w' = randomStream w \<and> drawn w' = drawn w"
proof (induction cs arbitrary: w chunks w')
  case Nil
  then show ?case by simp
next
  case (Cons c cs)
  obtain rest w2 where r: "stampChunks source ttl cs (w\<lparr>ticks := ticks w + 1\<rparr>) = (rest, w2)"
    by (cases "stampChunks source ttl cs (w\<lparr>ticks := ticks w + 1\<rparr>)")
  with Cons.prems have "w' = w2" by (simp add: readClock_def)
  with Cons.IH [OF r] show ?case by simp
qed

lemma readLocalFile_keeps:
  "readLocalFile source w = (r, w') \<Longrightarrow>
   qdrant w' = qdrant w \<and> randomStream w' = randomStream w \<and> drawn w' = drawn w"
  by (auto simp: readLocalFile_def Let_def split: if_splits option.splits sum.splits)

lemma fetchAndProcessUrl_keeps:
  assumes "fetchAndProcessUrl source w = (r, w')"
  shows "qdrant w' = qdrant w \<and> randomStream w' = randomStream w \<and> drawn w' = drawn w"
proof -
  let ?isUrl = "startsWith source ''http://'' \<or> startsWith source ''https://''"
  obtain r1 w1 where f: "(if ?isUrl then fetchRemote source w else readLocalFile source w) = (r1, w1)"
    by (cases "if ?isUrl then fetchRemote source w else readLocalFile source w")
  have k1: "qdrant w1 = qdrant w \<and> randomStream w1 = randomStream w \<and> drawn w1 = drawn w"
  proof (cases ?isUrl)
    case True
    with f show ?thesis by (auto simp: fetchRemote_def)
  next
    case False
    with f have "readLocalFile source w = (r1, w1)" by simp
    then show ?thesis by (rule readLocalFile_keeps)
  qed
  show ?thesis
  proof (cases r1)
    case (Inl error)
    with assms f have "w' = w1"
      by (simp add: fetchAndProcessUrl_def Let_def split: if_splits)
    with k1 show ?thesis by simp
  next
    case (Inr tc)
    obtain ttl mainContent where tc: "tc = (ttl, mainContent)" by (cases tc)
    obtain chunks w2 where s: "stampChunks source ttl (chunkText mainContent 1000) w1 = (chunks, w2)"
      by (cases "stampChunks source ttl (chunkText mainContent 1000) w1")
    with assms f Inr tc have "w' = w2"
      by (simp add: fetchAndProcessUrl_def Let_def)
    with stampChunks_keeps [OF s] k1 show ?thesis by simp
  qed
qed

lemma handle_success:
  assumes "handle this (ArgsValue (Some source)) w = (Inr response, w')" and "\<not> isError response"
    and "fetchAndProcessUrl source w = (Inr chunks, w0)"
  shows "batchLoop this 0 chunks w0 = (Inr (), w')"
proof -
  from assms(1) have ne: "source \<noteq> []" by (auto simp: handle_def split: if_splits)
  obtain rb wb where b: "batchLoop this 0 chunks w0 = (rb, wb)" by (cases "batchLoop this 0 chunks w0")
  show ?thesis
  proof (cases rb)
    case (Inl error)
    with b assms(3) have "handleBody this source w = (Inl error, wb)" by (simp add: handleBody_def)
    with assms(1,2) ne show ?thesis by (auto simp: handle_def split: if_splits)
  next
    case (Inr u)
    with b assms(3) obtain resp where "handleBody this source w = (Inr resp, wb)"
      by (simp add: handleBody_def)
    with assms(1) ne have "w' = wb" by (simp add: handle_def)
    with b Inr show ?thesis by simp
  qed
qed

lemma ids_by_order:
  assumes "map (\<lambda>k. pointId (pts ! k)) order = map (\<lambda>k. pointId (pts' ! k)) order"
    and "set order = {0 ..< n}" and "length pts = n" and "length pts' = n"
  shows "map pointId pts' = map pointId pts"
proof (rule nth_equalityI)
  show "length (map pointId pts') = length (map pointId pts)" using assms(3,4) by simp
next
  fix k
  assume "k < length (map pointId pts')"
  with assms(4) have k: "k < n" by simp
  with assms(2) have "k \<in> set order" by simp
  with assms(1) have "pointId (pts ! k) = pointId (pts' ! k)" by simp
  with k assms(3,4) show "map pointId pts' ! k = map pointId pts ! k" by simp
qed

text \<open>
  Claim C9. The identifiers of the points of a batch are the hexadecimal forms of the next
  blocks of sixteen bytes of the random stream, one block per chunk, handed out in the order
  in which the embedding requests of the batch complete: read in that order, the
  identifiers of the points are the blocks in the order of the stream, and as a multiset
  they are determined by the stream, the position in it and the number of chunks. Two
  batches of the same length, with whatever texts, urls, titles and timestamps, embedded by
  whatever client, get the same multiset of identifiers from the same stream at the same
  position, and the same identifier at every position when their requests complete in the
  same order. And an ingestion that succeeds adds one point per chunk after the points that
  the collection holds, which stay as they are, with the blocks drawn as identifiers,
  provided the blocks drawn are distinct and none is the identifier of a stored point; so
  ingesting a source again, with the points of its earlier ingestion in the collection, adds
  points and overwrites none.
\<close>

theorem point_ids_from_randomness:
  "(embedBatch this i batch w = (Inr pts, w1) \<longrightarrow>
      map (\<lambda>k. pointId (pts ! k)) (completionOrder w i (length batch))
        = map toHex (blocksAt (randomStream w) (drawn w) (length batch))
      \<and> mset (map pointId pts) = mset (map toHex (blocksAt (randomStream w) (drawn w) (length batch))))
 \<and> (embedBatch this i batch w = (Inr pts, w1) \<and> embedBatch that i' other v = (Inr pts', v1)
      \<and> length other = length batch \<and> randomStream v = randomStream w \<and> drawn v = drawn w \<longrightarrow>
      mset (map pointId pts') = mset (map pointId pts)
      \<and> (completionOrder v i' (length other) = completionOrder w i (length batch) \<longrightarrow>
           map pointId pts' = map pointId pts))
 \<and> (handle this (ArgsValue (Some source)) w = (Inr response, w') \<and> \<not> isError response
      \<and> fetchAndProcessUrl source w = (Inr chunks, w0)
      \<and> map_of (collections (qdrant w)) COLLECTION_NAME = Some c
      \<and> distinct (blocksAt (randomStream w) (drawn w) (length chunks))
      \<and> (\<forall>b \<in> set (blocksAt (randomStream w) (drawn w) (length chunks)). toHex b \<notin> pointId ` set (points c)) \<longrightarrow>
      (\<exists>new. map_of (collections (qdrant w')) COLLECTION_NAME = Some (c\<lparr>points := points c @ new\<rparr>)
         \<and> map payload new = chunks
         \<and> mset (map pointId new) = mset (map toHex (blocksAt (randomStream w) (drawn w) (length chunks)))))"
proof (intro conjI impI)
  assume a: "embedBatch this i batch w = (Inr pts, w1)"
  from embedBatch_points [OF a]
  show "map (\<lambda>k. pointId (pts ! k)) (completionOrder w i (length batch))
        = map toHex (blocksAt (randomStream w) (drawn w) (length batch))" by simp
  from a show "mset (map pointId pts) = mset (map toHex (blocksAt (randomStream w) (drawn w) (length batch)))"
    by (rule embedBatch_ids_mset)
next
  assume a: "embedBatch this i batch w = (Inr pts, w1) \<and> embedBatch that i' other v = (Inr pts', v1)
      \<and> length other = length batch \<and> randomStream v = randomStream w \<and> drawn v = drawn w"
  then have "embedBatch this i batch w = (Inr pts, w1)" and "embedBatch that i' other v = (Inr pts', v1)"
    by simp_all
  from embedBatch_ids_mset [OF this(1)] embedBatch_ids_mset [OF this(2)] a
  show "mset (map pointId pts') = mset (map pointId pts)" by simp
next
  assume a: "embedBatch this i batch w = (Inr pts, w1) \<and> embedBatch that i' other v = (Inr pts', v1)
      \<and> length other = length batch \<and> randomStream v = randomStream w \<and> drawn v = drawn w"
    and o: "completionOrder v i' (length other) = completionOrder w i (length batch)"
  from a have e1: "embedBatch this i batch w = (Inr pts, w1)"
    and e2: "embedBatch that i' other v = (Inr pts', v1)" by simp_all
  from embedBatch_points [OF e1] embedBatch_points [OF e2] a o
  have "map (\<lambda>k. pointId (pts ! k)) (completionOrder w i (length batch))
      = map (\<lambda>k. pointId (pts' ! k)) (completionOrder w i (length batch))" by simp
  moreover have "set (completionOrder w i (length batch)) = {0 ..< length batch}"
    by (rule completionOrder_set)
  moreover from embedBatch_length [OF e1] have "length pts = length batch" .
  moreover from embedBatch_length [OF e2] a have "length pts' = length batch" by simp
  ultimately show "map pointId pts' = map pointId pts" by (rule ids_by_order)
next
  assume a: "handle this (ArgsValue (Some source)) w = (Inr response, w') \<and> \<not> isError response
      \<and> fetchAndProcessUrl source w = (Inr chunks, w0)
      \<and> map_of (collections (qdrant w)) COLLECTION_NAME = Some c
      \<and> distinct (blocksAt (randomStream w) (drawn w) (length chunks))
      \<and> (\<forall>b \<in> set (blocksAt (randomStream w) (drawn w) (length chunks)). toHex b \<notin> pointId ` set (points c))"
  then have f: "fetchAndProcessUrl source w = (Inr chunks, w0)" by simp
  from fetchAndProcessUrl_keeps [OF f]
  have k: "qdrant w0 = qdrant w" "randomStream w0 = randomStream w" "drawn w0 = drawn w" by simp_all
  from a f have loop: "batchLoop this 0 chunks w0 = (Inr (), w')"
    by (intro handle_success [of this source w response w' chunks w0]) simp_all
  from a k have p2: "map_of (collections (qdrant w0)) COLLECTION_NAME = Some c" by simp
  from a k have p3: "distinct (map toHex (blocksAt (randomStream w0) (drawn w0) (length chunks - 0)))"
    by (simp add: distinct_ids)
  from a k have p4: "toHex ` set (blocksAt (randomStream w0) (drawn w0) (length chunks - 0))
      \<inter> pointId ` set (points c) = {}" by auto
  from batchLoop_adds [OF loop p2 p3 p4] k
  show "\<exists>new. map_of (collections (qdrant w')) COLLECTION_NAME = Some (c\<lparr>points := points c @ new\<rparr>)
         \<and> map payload new = chunks
         \<and> mset (map pointId new) = mset (map toHex (blocksAt (randomStream w) (drawn w) (length chunks)))"
    by simp
qed

lemma result_with_state: "fst p = a \<Longrightarrow> p = (a, snd p)"
  by (cases p) simp

theorem point_ids_from_randomness_witness:
  "(\<exists>pts pts'.
       fst (embedBatch ollamaClient 0
             [\<lparr>chunk_text = [97], url = ''a.txt'', title = ''A'', timestamp = ''2025-06-01T12:00:00.000Z''\<rparr>,
              \<lparr>chunk_text = [98], url = ''a.txt'', title = ''A'', timestamp = ''2025-06-01T12:00:00.001Z''\<rparr>]
             (notesWorld (docStore (Some 2) [oldPoint] [] []))) = Inr pts
     \<and> fst (embedBatch ollamaClient 0
             [\<lparr>chunk_text = [98, 99], url = ''https://b.example/doc'', title = ''B'', timestamp = ''2026-01-01T00:00:00.000Z''\<rparr>,
              \<lparr>chunk_text = [100], url = ''https://b.example/doc'', title = ''B'', timestamp = ''2026-01-01T00:00:00.000Z''\<rparr>]
             (notesWorld (docStore (Some 2) [oldPoint] [] []))) = Inr pts'
     \<and> map pointId pts' = map pointId pts
     \<and> map pointId pts = [''101112131415161718191a1b1c1d1e1f'', ''000102030405060708090a0b0c0d0e0f''])
 \<and> completionOrder (notesWorld (docStore (Some 2) [oldPoint] [] [])) 0 2 = [1, 0]
 \<and> map toHex (blocksAt (randomStream (notesWorld (docStore (Some 2) [oldPoint] [] []))) 0 2)
     = [''000102030405060708090a0b0c0d0e0f'', ''101112131415161718191a1b1c1d1e1f'']
 \<and> (\<exists>new.
       map_of (collections (qdrant (snd (handle ollamaClient (ArgsValue (Some ''notes.txt''))
                 (notesWorld (docStore (Some 2) [oldPoint] [] [])))))) ''documentation''
         = Some \<lparr>vectorsSize = Some 2, distance = ''Cosine'', points = oldPoint # new\<rparr>
     \<and> map pointId new = [''000102030405060708090a0b0c0d0e0f'']
     \<and> map (\<lambda>p. url (payload p)) new = [''notes.txt''])
 \<and> url (payload oldPoint) = ''notes.txt''"
proof -
  let ?W = "notesWorld (docStore (Some 2) [oldPoint] [] [])"
  let ?a = "\<lparr>chunk_text = [97], url = ''a.txt'', title = ''A'', timestamp = ''2025-06-01T12:00:00.000Z''\<rparr>"
  let ?a2 = "\<lparr>chunk_text = [98], url = ''a.txt'', title = ''A'', timestamp = ''2025-06-01T12:00:00.001Z''\<rparr>"
  let ?b = "\<lparr>chunk_text = [98, 99], url = ''https://b.example/doc'', title = ''B'', timestamp = ''2026-01-01T00:00:00.000Z''\<rparr>"
  let ?b2 = "\<lparr>chunk_text = [100], url = ''https://b.example/doc'', title = ''B'', timestamp = ''2026-01-01T00:00:00.000Z''\<rparr>"
  let ?id0 = "''000102030405060708090a0b0c0d0e0f''"
  let ?id1 = "''101112131415161718191a1b1c1d1e1f''"
  let ?pa = "\<lparr>pointId = ?id1, vector = [1, 0], payload = ?a, payloadType = ''DocumentChunk''\<rparr>"
  let ?pa2 = "\<lparr>pointId = ?id0, vector = [1, 0], payload = ?a2, payloadType = ''DocumentChunk''\<rparr>"
  let ?pb = "\<lparr>pointId = ?id1, vector = [1, 0], payload = ?b, payloadType = ''DocumentChunk''\<rparr>"
  let ?pb2 = "\<lparr>pointId = ?id0, vector = [1, 0], payload = ?b2, payloadType = ''DocumentChunk''\<rparr>"
  let ?chunk = "\<lparr>chunk_text = [97, 0x20, 98], url = ''notes.txt'', title = ''notes.txt'',
      timestamp = ''2025-06-01T12:00:00.000Z''\<rparr>"
  let ?c = "\<lparr>vectorsSize = Some 2, distance = ''Cosine'', points = [oldPoint]\<rparr>"
  let ?ok = "\<lparr>contentText = ''Successfully added documentation from notes.txt (1 chunks processed in 1 batches)'',
      isError = False\<rparr>"

  have order: "completionOrder ?W 0 2 = [1, 0]" by code_simp
  have d0: "drawn ?W = 0" by (simp add: notesWorld_def)
  have blocks: "map toHex (blocksAt (randomStream ?W) 0 2) = [?id0, ?id1]" by code_simp
  define wa where "wa = snd (embedBatch ollamaClient 0 [?a, ?a2] ?W)"
  have fa: "fst (embedBatch ollamaClient 0 [?a, ?a2] ?W) = Inr [?pa, ?pa2]" by code_simp
  then have ea: "embedBatch ollamaClient 0 [?a, ?a2] ?W = (Inr [?pa, ?pa2], wa)"
    unfolding wa_def by (rule result_with_state)
  define wb where "wb = snd (embedBatch ollamaClient 0 [?b, ?b2] ?W)"
  have fb: "fst (embedBatch ollamaClient 0 [?b, ?b2] ?W) = Inr [?pb, ?pb2]" by code_simp
  then have eb: "embedBatch ollamaClient 0 [?b, ?b2] ?W = (Inr [?pb, ?pb2], wb)"
    unfolding wb_def by (rule result_with_state)
  have "map (\<lambda>k. pointId ([?pa, ?pa2] ! k)) (completionOrder ?W 0 (length [?a, ?a2]))
        = map toHex (blocksAt (randomStream ?W) (drawn ?W) (length [?a, ?a2]))
      \<and> mset (map pointId [?pa, ?pa2])
        = mset (map toHex (blocksAt (randomStream ?W) (drawn ?W) (length [?a, ?a2])))"
    by (rule point_ids_from_randomness [THEN conjunct1, THEN mp, OF ea])
  have same_len: "length [?b, ?b2] = length [?a, ?a2]" by simp
  have same_order: "completionOrder ?W 0 (length [?b, ?b2]) = completionOrder ?W 0 (length [?a, ?a2])"
    by simp
  have "map pointId [?pb, ?pb2] = map pointId [?pa, ?pa2]"
    by (rule point_ids_from_randomness [THEN conjunct2, THEN conjunct1, THEN mp,
          OF conjI [OF ea conjI [OF eb conjI [OF same_len conjI [OF refl refl]]]],
          THEN conjunct2, THEN mp, OF same_order])
  with fa fb have part1: "\<exists>pts pts'. fst (embedBatch ollamaClient 0 [?a, ?a2] ?W) = Inr pts
     \<and> fst (embedBatch ollamaClient 0 [?b, ?b2] ?W) = Inr pts'
     \<and> map pointId pts' = map pointId pts \<and> map pointId pts = [?id1, ?id0]"
    by (intro exI [of _ "[?pa, ?pa2]"] exI [of _ "[?pb, ?pb2]"]) simp

  define wh where "wh = snd (handle ollamaClient (ArgsValue (Some ''notes.txt'')) ?W)"
  have "fst (handle ollamaClient (ArgsValue (Some ''notes.txt'')) ?W) = Inr ?ok" by code_simp
  then have h: "handle ollamaClient (ArgsValue (Some ''notes.txt'')) ?W = (Inr ?ok, wh)"
    unfolding wh_def by (rule result_with_state)
  have ok: "\<not> isError ?ok" by simp
  define w0 where "w0 = snd (fetchAndProcessUrl ''notes.txt'' ?W)"
  have "fst (fetchAndProcessUrl ''notes.txt'' ?W) = Inr [?chunk]" by code_simp
  then have f: "fetchAndProcessUrl ''notes.txt'' ?W = (Inr [?chunk], w0)"
    unfolding w0_def by (rule result_with_state)
  have st: "map_of (collections (qdrant ?W)) COLLECTION_NAME = Some ?c"
    by (simp add: notesWorld_def docStore_def COLLECTION_NAME_def)
  have di: "distinct (blocksAt (randomStream ?W) (drawn ?W) (length [?chunk]))"
    by (simp add: blocksAt_Suc blocksAt_0)
  have fr: "\<forall>b \<in> set (blocksAt (randomStream ?W) (drawn ?W) (length [?chunk])). toHex b \<notin> pointId ` set (points ?c)"
    by code_simp
  have one: "map toHex (blocksAt (randomStream ?W) (drawn ?W) (length [?chunk])) = [?id0]"
    by code_simp
  have "\<exists>new. map_of (collections (qdrant wh)) COLLECTION_NAME = Some (?c\<lparr>points := points ?c @ new\<rparr>)
         \<and> map payload new = [?chunk]
         \<and> mset (map pointId new) = mset (map toHex (blocksAt (randomStream ?W) (drawn ?W) (length [?chunk])))"
    by (rule point_ids_from_randomness [THEN conjunct2, THEN conjunct2, THEN mp,
          OF conjI [OF h conjI [OF ok conjI [OF f conjI [OF st conjI [OF di fr]]]]]])
  then obtain new where
    n: "map_of (collections (qdrant wh)) COLLECTION_NAME = Some (?c\<lparr>points := points ?c @ new\<rparr>)
         \<and> map payload new = [?chunk]
         \<and> mset (map pointId new) = mset (map toHex (blocksAt (randomStream ?W) (drawn ?W) (length [?chunk])))" ..
  note n1 = n [THEN conjunct1] and n2 = n [THEN conjunct2, THEN conjunct1]
    and n3 = n [THEN conjunct2, THEN conjunct2]
  have "map (\<lambda>p. url (payload p)) new = map url (map payload new)" by simp
  with n2 have u: "map (\<lambda>p. url (payload p)) new = [''notes.txt'']" by simp
  from n3 have "mset (map pointId new) = {#?id0#}" unfolding one by simp
  then have i: "map pointId new = [?id0]" by (cases "map pointId new") simp_all
  from n1 have s: "map_of (collections (qdrant wh)) ''documentation''
      = Some \<lparr>vectorsSize = Some 2, distance = ''Cosine'', points = oldPoint # new\<rparr>"
    by (simp add: COLLECTION_NAME_def)
  from s i u have part2: "\<exists>new.
       map_of (collections (qdrant (snd (handle ollamaClient (ArgsValue (Some ''notes.txt'')) ?W)))) ''documentation''
         = Some \<lparr>vectorsSize = Some 2, distance = ''Cosine'', points = oldPoint # new\<rparr>
     \<and> map pointId new = [?id0]
     \<and> map (\<lambda>p. url (payload p)) new = [''notes.txt'']"
    unfolding wh_def by (intro exI [of _ new] conjI)
  have part3: "url (payload oldPoint) = ''notes.txt''" by (simp add: oldPoint_def)
  from part1 order blocks part2 part3 show ?thesis by (intro conjI)
qed

end
